theory Spec2Isabelle
  imports
    Complex_Main
    "HOL-Library.List_Lexorder"
    "HOL-Library.Char_ord"
    "HOL-Library.Option_ord"
    "HOL-Library.Multiset"
begin

section \<open>Hyperband scheduler (hyperband.py)\<close>

text \<open>
  A shallow embedding of class \<open>Hyperband\<close>. Conventions:
  \<^item> Python floats are idealised as real numbers with exact arithmetic; \<open>math.e\<close>
    is \<open>exp 1\<close>. The one exception is \<open>math.log\<close>: the integer \<open>s_max\<close> is cut out
    of its double-precision result, which can differ from the real logarithm by a
    rounding that reaches the next integer, so the platform's \<open>math.log\<close> is a
    parameter.
  \<^item> A Python \<open>dict\<close> is an association list in insertion order with distinct keys.
  \<^item> Python strings are \<open>string\<close>, compared lexicographically by character code.
  \<^item> A reward is a \<open>real option\<close> ordered with \<open>None\<close> least: \<open>None\<close> is
    \<open>-float('inf')\<close>, \<open>Some r\<close> a finite reward. Rewards that are not numbers are
    not modelled.
  \<^item> The collaborators that are not part of the file (\<open>Model\<close>, \<open>Config\<close>, the
    progress bars, \<open>Path\<close>) are parameters: a record of functions over an abstract
    collaborator state. \<open>RangeProgress\<close> and \<open>ListProgress\<close> iterate like
    \<open>range\<close> and the list they wrap. Printing is not modelled.
  \<^item> Every raise of the file itself is an \<open>Inl\<close> result; where the world may have
    changed before the raise, the result carries the world at the raise.
\<close>

subsection \<open>Python built-ins used by the file\<close>

datatype error = AssertionError string | KeyError string | ValueError string

type_synonym ('k, 'v) dict = "('k \<times> 'v) list"

text \<open>\<open>d[k] = v\<close>: an existing key keeps its position, a new key is appended.\<close>

fun dict_set :: "'k \<Rightarrow> 'v \<Rightarrow> ('k, 'v) dict \<Rightarrow> ('k, 'v) dict" where
  "dict_set k v [] = [(k, v)]"
| "dict_set k v (p # ps) = (if fst p = k then (k, v) # ps else p # dict_set k v ps)"

text \<open>\<open>d.update(other)\<close>: the entries of \<open>other\<close> are stored in its order.\<close>

definition dict_update :: "('k, 'v) dict \<Rightarrow> ('k, 'v) dict \<Rightarrow> ('k, 'v) dict" where
  "dict_update d other = fold (\<lambda>kv acc. dict_set (fst kv) (snd kv) acc) other d"

text \<open>\<open>d[k]\<close>: raises \<open>KeyError\<close> on a missing key.\<close>

definition dict_get :: "('k \<Rightarrow> string) \<Rightarrow> ('k, 'v) dict \<Rightarrow> 'k \<Rightarrow> error + 'v" where
  "dict_get show_key d k = (case map_of d k of None \<Rightarrow> Inl (KeyError (show_key k)) | Some v \<Rightarrow> Inr v)"

text \<open>\<open>sep.join(xs)\<close>\<close>

fun py_join :: "string \<Rightarrow> string list \<Rightarrow> string" where
  "py_join sep [] = []"
| "py_join sep [x] = x"
| "py_join sep (x # y # ys) = x @ sep @ py_join sep (y # ys)"

text \<open>\<open>sorted(xs, key=f, reverse=True)\<close>: descending, equal keys stay in their original order.\<close>

definition sorted_reverse :: "('a \<Rightarrow> 'b::linorder) \<Rightarrow> 'a list \<Rightarrow> 'a list" where
  "sorted_reverse f xs = rev (sort_key f (rev xs))"

text \<open>\<open>int(x)\<close> of a float truncates towards zero.\<close>

definition py_int :: "real \<Rightarrow> int" where
  "py_int x = (if 0 \<le> x then \<lfloor>x\<rfloor> else \<lceil>x\<rceil>)"

text \<open>\<open>round(x)\<close> of a float: to the nearest integer, a half to the even neighbour.\<close>

definition py_round :: "real \<Rightarrow> int" where
  "py_round x =
     (let f = \<lfloor>x\<rfloor>; d = x - of_int f
      in if d < 1 / 2 then f else if 1 / 2 < d then f + 1 else if even f then f else f + 1)"

text \<open>\<open>str(n)\<close> of an integer: decimal digits, a minus sign when negative.\<close>

definition digit_char :: "nat \<Rightarrow> char" where
  "digit_char d = char_of (48 + d)"

fun str_nat :: "nat \<Rightarrow> string" where
  "str_nat n = (if n < 10 then [digit_char n] else str_nat (n div 10) @ [digit_char (n mod 10)])"

declare str_nat.simps [simp del]

definition str_int :: "int \<Rightarrow> string" where
  "str_int i = (if i < 0 then CHR ''-'' # str_nat (nat (- i)) else str_nat (nat i))"

text \<open>
  \<open>int(s)\<close> of a string: optional surrounding whitespace, an optional sign, then decimal
  digits, where single underscores may separate digits. Anything else is a \<open>ValueError\<close>.
  Characters are the code points below 256, so the digits are the ASCII digits. The
  whitespace \<open>int\<close> strips is the ASCII blank, tab, line feed, vertical tab, form feed
  and carriage return, and the two further blanks below 256 (133 and 160); the
  separators 28 to 31 are not stripped.
\<close>

definition is_digit :: "char \<Rightarrow> bool" where
  "is_digit c = (CHR ''0'' \<le> c \<and> c \<le> CHR ''9'')"

definition is_space :: "char \<Rightarrow> bool" where
  "is_space c = (c = CHR '' '' \<or> (9 \<le> (of_char c :: nat) \<and> (of_char c :: nat) \<le> 13)
     \<or> (of_char c :: nat) = 133 \<or> (of_char c :: nat) = 160)"

definition strip :: "string \<Rightarrow> string" where
  "strip s = rev (dropWhile is_space (rev (dropWhile is_space s)))"

fun digits_value :: "nat \<Rightarrow> string \<Rightarrow> nat option" where
  "digits_value acc [] = Some acc"
| "digits_value acc (c # cs) =
     (if is_digit c then digits_value (10 * acc + (of_char c - 48)) cs
      else if c = CHR ''_'' \<and> cs \<noteq> [] \<and> is_digit (hd cs) then digits_value acc cs
      else None)"

definition nat_of_digits :: "string \<Rightarrow> nat option" where
  "nat_of_digits s = (case s of [] \<Rightarrow> None | c # cs \<Rightarrow> if is_digit c then digits_value 0 s else None)"

definition int_of_str :: "string \<Rightarrow> error + int" where
  "int_of_str s =
     (let t = strip s;
          (neg, body) = (case t of
                           c # cs \<Rightarrow> if c = CHR ''-'' then (True, cs) else if c = CHR ''+'' then (False, cs) else (False, t)
                         | [] \<Rightarrow> (False, t))
      in case nat_of_digits body of
           None \<Rightarrow> Inl (ValueError s)
         | Some n \<Rightarrow> Inr (if neg then - int n else int n))"

subsection \<open>Configurations and their names\<close>

type_synonym 'v params = "(string, 'v) dict"

text \<open>
  \<open>get_name = lambda params: ','.join(sorted('%s=%s' % kv for kv in params.items()))\<close>
  (line 64). \<open>str\<close> is Python's \<open>str()\<close> on hyperparameter values.
\<close>

definition fmt_item :: "('v \<Rightarrow> string) \<Rightarrow> string \<times> 'v \<Rightarrow> string" where
  "fmt_item str kv = fst kv @ ''='' @ str (snd kv)"

definition get_name :: "('v \<Rightarrow> string) \<Rightarrow> 'v params \<Rightarrow> string" where
  "get_name str params = py_join '','' (sort (map (fmt_item str) params))"

text \<open>
  The reading of the specification, for comparison: the entries in ascending order of
  their keys, each rendered \<open>key=value\<close>, joined by commas.
\<close>

definition name_by_sorted_keys :: "('v \<Rightarrow> string) \<Rightarrow> 'v params \<Rightarrow> string" where
  "name_by_sorted_keys str params = py_join '','' (map (fmt_item str) (sort_key fst params))"

text \<open>\<open>Config(name, **params)\<close>; the name is the configuration's directory.\<close>

record 'v config =
  name :: string
  params :: "'v params"

text \<open>\<open>Path.__truediv__\<close> of \<open>src.util\<close>: joins with a slash.\<close>

definition path_join :: "string \<Rightarrow> string \<Rightarrow> string" where
  "path_join dir file = dir @ ''/'' @ file"

text \<open>
  Lines 69 to 71: the name is taken from the sampled parameters, then the fixed
  defaults are stored over them, then the configuration is built.
\<close>

definition materialize :: "('v \<Rightarrow> string) \<Rightarrow> string \<Rightarrow> 'v params \<Rightarrow> 'v params \<Rightarrow> 'v config" where
  "materialize str hb_path config_dict sampled =
     (let nm = path_join hb_path (get_name str sampled);
          merged = dict_update sampled config_dict
      in \<lparr>name = nm, params = merged\<rparr>)"

text \<open>\<open>xs[:k]\<close>: a negative bound counts from the end.\<close>

definition slice_to :: "int \<Rightarrow> 'a list \<Rightarrow> 'a list" where
  "slice_to k xs = (if 0 \<le> k then take (nat k) xs else take (nat (int (length xs) + k)) xs)"

subsection \<open>Results, the running best, and the persisted world\<close>

type_synonym reward = "real option"

text \<open>\<open>info = dict(reward=reward, config=config, epoch=epoch)\<close> (line 94).\<close>

record 'v info =
  reward :: reward
  config :: "'v config"
  epoch :: nat

text \<open>
  \<open>best_info\<close>: first \<open>dict(reward=-float('inf'))\<close>, which has no \<open>config\<close> and no
  \<open>epoch\<close> key (line 65), later one of the \<open>info\<close> dictionaries.
\<close>

record 'v best_info =
  best_reward :: reward
  best_config :: "'v config option"
  best_epoch :: "nat option"

definition initial_best :: "'v best_info" where
  "initial_best = \<lparr>best_reward = None, best_config = None, best_epoch = None\<rparr>"

text \<open>
  \<open>max(best_info, info, key=lambda k: k['reward'])\<close> (line 95): Python's \<open>max\<close> keeps
  its first argument unless a later one has a strictly greater key.
\<close>

definition max_by_reward :: "'v best_info \<Rightarrow> 'v info \<Rightarrow> 'v best_info" where
  "max_by_reward best i =
     (if best_reward best < reward i
      then \<lparr>best_reward = reward i, best_config = Some (config i), best_epoch = Some (epoch i)\<rparr>
      else best)"

text \<open>The persisted scheduler configuration, \<open>hyperband_config.json\<close>.\<close>

record 'v hb_config =
  cfg_model :: string
  cfg_data :: string
  cfg_train_epoch :: int
  cfg_vars :: "'v params"

text \<open>The command-line arguments the class reads; an argument not given is \<open>None\<close>.\<close>

record args =
  hyperband_path :: string
  model_path :: "string option"
  data_path :: "string option"
  train_epoch :: "int option"

text \<open>What the run does to its surroundings, in order.\<close>

datatype event = GetParams | SaveState | SaveConfig string | Fit string int | LinkBest string

text \<open>
  The output directory and the collaborators' state: the three files the scheduler
  reads and writes itself, the state \<open>ext\<close> of everything behind \<open>Model\<close> and
  \<open>Config\<close> (training histories, early-stop flags, the sampler), and the trace of calls.
\<close>

record ('v, 'w) world =
  config_file :: "'v hb_config option"
  state_file :: "(string, 'v params list) dict option"
  best_link :: "string option"
  ext :: 'w
  trace :: "event list"

text \<open>
  The collaborators: \<open>str()\<close> on a hyperparameter value, the truth value of a
  \<open>Path\<close>, the platform's double-precision \<open>math.log\<close>, \<open>Model.get_params\<close>,
  \<open>Config.save\<close>, \<open>config.stopped_early.exists()\<close>, \<open>Model(config, ...).fit(n_iters)\<close>
  and \<open>config.load_best_reward()\<close>.
\<close>

record ('v, 'w) adapter =
  str_value :: "'v \<Rightarrow> string"
  path_truthy :: "string \<Rightarrow> bool"
  math_log :: "real \<Rightarrow> real"
  get_params :: "'v params \<Rightarrow> 'w \<Rightarrow> 'v params \<times> 'w"
  save :: "'v config \<Rightarrow> string \<Rightarrow> string \<Rightarrow> 'w \<Rightarrow> 'w"
  stopped_early :: "'v config \<Rightarrow> 'w \<Rightarrow> bool"
  fit :: "'v config \<Rightarrow> int \<Rightarrow> 'w \<Rightarrow> 'w"
  load_best_reward :: "'v config \<Rightarrow> 'w \<Rightarrow> reward \<times> nat"

subsection \<open>Construction (lines 15 to 38)\<close>

record 'v hyperband =
  hb_path :: string
  hb_model_path :: string
  hb_data_path :: string
  config_dict :: "'v params"
  max_iter :: int
  s_max :: int
  B :: int

definition eta :: real where
  "eta = exp 1"

text \<open>Line 36: \<open>logeta = lambda x: math.log(x) / math.log(self.eta)\<close>\<close>

definition logeta :: "('v, 'w) adapter \<Rightarrow> real \<Rightarrow> real" where
  "logeta A x = math_log A x / math_log A eta"

text \<open>
  Lines 19 to 24: a persisted configuration replaces the three arguments and is
  stored over the supplied defaults.
\<close>

definition merge_config ::
  "'v hb_config option \<Rightarrow> args \<Rightarrow> 'v params \<Rightarrow> args \<times> 'v params" where
  "merge_config persisted a cd =
     (case persisted of
        Some c \<Rightarrow>
          (a\<lparr>model_path := Some (cfg_model c), data_path := Some (cfg_data c),
             train_epoch := Some (cfg_train_epoch c)\<rparr>,
           dict_update cd (cfg_vars c))
      | None \<Rightarrow> (a, cd))"

text \<open>
  \<open>__init__\<close>. The three assertions test truth values: an unset argument, an empty
  path (as \<open>path_truthy\<close> decides) and epoch count 0 fail them. \<open>math.log\<close> raises
  \<open>ValueError\<close> on a negative number. Loading the model class is not modelled.
\<close>

definition hb_init ::
  "('v, 'w) adapter \<Rightarrow> args \<Rightarrow> 'v params \<Rightarrow> ('v, 'w) world \<Rightarrow> error + 'v hyperband" where
  \<open>hb_init A a0 cd0 w =
     (let (a, cd) = merge_config (config_file w) a0 cd0
      in case model_path a of
           None \<Rightarrow> Inl (AssertionError ''Must provide "model" argument'')
         | Some m \<Rightarrow>
             if \<not> path_truthy A m then Inl (AssertionError ''Must provide "model" argument'')
             else case data_path a of
               None \<Rightarrow> Inl (AssertionError ''Must provide "data" argument'')
             | Some d \<Rightarrow>
                 if \<not> path_truthy A d then Inl (AssertionError ''Must provide "data" argument'')
                 else case train_epoch a of
                   None \<Rightarrow> Inl (AssertionError ''Must provide "train-epoch" argument'')
                 | Some t \<Rightarrow>
                     if t = 0 then Inl (AssertionError ''Must provide "train-epoch" argument'')
                     else if t < 0 then Inl (ValueError ''math domain error'')
                     else
                       let sm = py_int (logeta A (of_int t))
                       in Inr \<lparr>hb_path = hyperband_path a, hb_model_path = m, hb_data_path = d,
                               config_dict = cd, max_iter = t, s_max = sm, B = (sm + 1) * t\<rparr>)\<close>

subsection \<open>Bracket arithmetic\<close>

text \<open>\<open>range(self.s_max, -1, -1)\<close>\<close>

definition brackets :: "'v hyperband \<Rightarrow> int list" where
  "brackets hb = rev [0..s_max hb]"

text \<open>Line 57: \<open>n = int(math.ceil(self.B / self.max_iter / (s + 1) * self.eta ** s))\<close>\<close>

definition n_initial :: "'v hyperband \<Rightarrow> int \<Rightarrow> int" where
  "n_initial hb s = \<lceil>of_int (B hb) / of_int (max_iter hb) / of_int (s + 1) * eta powi s\<rceil>"

text \<open>Line 77: \<open>r = self.max_iter * self.eta ** (-s)\<close>\<close>

definition r_initial :: "'v hyperband \<Rightarrow> int \<Rightarrow> real" where
  "r_initial hb s = of_int (max_iter hb) * eta powi (- s)"

subsection \<open>State materialisation (lines 49 to 62, 130 to 136)\<close>

type_synonym 'v search_state = "(int, 'v params list) dict"

text \<open>\<open>{ int(k): v for k, v in load_json(self.state_path).items() }\<close>\<close>

fun int_keys :: "(string, 'a) dict \<Rightarrow> (int, 'a) dict \<Rightarrow> error + (int, 'a) dict" where
  "int_keys [] acc = Inr acc"
| "int_keys (kv # kvs) acc =
     (case int_of_str (fst kv) of
        Inl e \<Rightarrow> Inl e
      | Inr i \<Rightarrow> int_keys kvs (dict_set i (snd kv) acc))"

definition load_state :: "('v, 'w) world \<Rightarrow> error + 'v search_state option" where
  "load_state w =
     (case state_file w of
        Some f \<Rightarrow> (case int_keys f [] of Inl e \<Rightarrow> Inl e | Inr st \<Rightarrow> Inr (Some st))
      | None \<Rightarrow> Inr None)"

text \<open>
  \<open>save_json(self.state_path, numpy_to_builtin(state))\<close>: JSON object keys are strings,
  an integer key is written as \<open>str(k)\<close>.
\<close>

definition save_state :: "'v search_state \<Rightarrow> ('v, 'w) world \<Rightarrow> ('v, 'w) world" where
  "save_state st w =
     w\<lparr>state_file := Some (map (\<lambda>kv. (str_int (fst kv), snd kv)) st),
       trace := trace w @ [SaveState]\<rparr>"

text \<open>\<open>[Model.get_params(config) for _ in range(n)]\<close>\<close>

fun sample_params ::
  "('v, 'w) adapter \<Rightarrow> 'v params \<Rightarrow> nat \<Rightarrow> ('v, 'w) world \<Rightarrow> 'v params list \<times> ('v, 'w) world" where
  "sample_params A cd 0 w = ([], w)"
| "sample_params A cd (Suc n) w =
     (let (p, x) = get_params A cd (ext w);
          (ps, w') = sample_params A cd n (w\<lparr>ext := x, trace := trace w @ [GetParams]\<rparr>)
      in (p # ps, w'))"

text \<open>The loop of lines 55 to 60 over the bracket indices \<open>ss\<close>.\<close>

fun generate ::
  "('v, 'w) adapter \<Rightarrow> 'v hyperband \<Rightarrow> int list \<Rightarrow> 'v search_state \<Rightarrow> ('v, 'w) world
     \<Rightarrow> 'v search_state \<times> ('v, 'w) world" where
  "generate A hb [] st w = (st, w)"
| "generate A hb (s # ss) st w =
     (let (ps, w') = sample_params A (config_dict hb) (nat (n_initial hb s)) w
      in generate A hb ss (dict_set s ps st) w')"

text \<open>Lines 53 to 61: sample every bracket, then save once.\<close>

definition generate_and_save ::
  "('v, 'w) adapter \<Rightarrow> 'v hyperband \<Rightarrow> ('v, 'w) world \<Rightarrow> 'v search_state \<times> ('v, 'w) world" where
  "generate_and_save A hb w =
     (let (st, w') = generate A hb (brackets hb) [] w in (st, save_state st w'))"

text \<open>Lines 49 to 62. \<open>if state:\<close> is false for \<open>None\<close> and for an empty dictionary.\<close>

definition init_state ::
  "('v, 'w) adapter \<Rightarrow> 'v hyperband \<Rightarrow> ('v, 'w) world
     \<Rightarrow> error \<times> ('v, 'w) world + 'v search_state \<times> ('v, 'w) world" where
  "init_state A hb w =
     (case load_state w of
        Inl e \<Rightarrow> Inl (e, w)
      | Inr None \<Rightarrow> Inr (generate_and_save A hb w)
      | Inr (Some st) \<Rightarrow> if st \<noteq> [] then Inr (st, w) else Inr (generate_and_save A hb w))"

subsection \<open>The sweep (lines 66 to 101)\<close>

text \<open>Lines 68 to 73: the bracket's configurations are built and saved.\<close>

fun save_configs ::
  "('v, 'w) adapter \<Rightarrow> 'v hyperband \<Rightarrow> 'v params list \<Rightarrow> ('v, 'w) world
     \<Rightarrow> 'v config list \<times> ('v, 'w) world" where
  "save_configs A hb [] w = ([], w)"
| "save_configs A hb (p # ps) w =
     (let t = materialize (str_value A) (hb_path hb) (config_dict hb) p;
          w1 = w\<lparr>ext := save A t (hb_model_path hb) (hb_data_path hb) (ext w),
                 trace := trace w @ [SaveConfig (name t)]\<rparr>;
          (ts, w') = save_configs A hb ps w1
      in (t # ts, w'))"

text \<open>
  Lines 86 to 98, one round's loop over \<open>T\<close>. The accumulator is the running best, the
  round's results in the order they were recorded, and the world.
\<close>

fun train_configs ::
  "('v, 'w) adapter \<Rightarrow> int \<Rightarrow> 'v config list
     \<Rightarrow> 'v best_info \<times> 'v info list \<times> ('v, 'w) world
     \<Rightarrow> 'v best_info \<times> 'v info list \<times> ('v, 'w) world" where
  "train_configs A n_iters [] acc = acc"
| "train_configs A n_iters (c # cs) (best, results, w) =
     (if stopped_early A c (ext w) then train_configs A n_iters cs (best, results, w)
      else
        let x = fit A c n_iters (ext w);
            w1 = w\<lparr>ext := x, trace := trace w @ [Fit (name c) n_iters]\<rparr>;
            (rw, ep) = load_best_reward A c x;
            i = \<lparr>reward = rw, config = c, epoch = ep\<rparr>;
            best1 = max_by_reward best i;
            results1 = (if \<not> stopped_early A c x then results @ [i] else results)
        in train_configs A n_iters cs (best1, results1, w1))"

text \<open>Lines 100 and 101: the survivors of a round.\<close>

definition select_survivors :: "real \<Rightarrow> 'v info list \<Rightarrow> 'v config list" where
  "select_survivors n_configs results =
     map config (slice_to (py_int (n_configs / eta)) (sorted_reverse reward results))"

text \<open>Lines 82 to 101: round \<open>i\<close> of bracket \<open>s\<close>, whose first population had \<open>n\<close> members.\<close>

definition run_round ::
  "('v, 'w) adapter \<Rightarrow> 'v hyperband \<Rightarrow> int \<Rightarrow> nat \<Rightarrow> int
     \<Rightarrow> 'v config list \<times> 'v best_info \<times> ('v, 'w) world
     \<Rightarrow> 'v config list \<times> 'v best_info \<times> ('v, 'w) world" where
  "run_round A hb s n i st =
     (let (T, best, w) = st;
          n_configs = of_nat n * eta powi (- i);
          n_iters = py_round (r_initial hb s * eta powi i);
          (best1, results, w1) = train_configs A n_iters T (best, [], w)
      in (select_survivors n_configs results, best1, w1))"

text \<open>Lines 67 to 101: one bracket. \<open>state[s]\<close> raises \<open>KeyError\<close> on a missing bracket.\<close>

definition run_bracket ::
  "('v, 'w) adapter \<Rightarrow> 'v hyperband \<Rightarrow> 'v search_state \<Rightarrow> int
     \<Rightarrow> 'v best_info \<times> ('v, 'w) world
     \<Rightarrow> error \<times> ('v, 'w) world + 'v best_info \<times> ('v, 'w) world" where
  "run_bracket A hb st s bw =
     (case dict_get str_int st s of
        Inl e \<Rightarrow> Inl (e, snd bw)
      | Inr ps \<Rightarrow>
          let (T, w1) = save_configs A hb ps (snd bw);
              (T', best', w') = fold (run_round A hb s (length T)) [0..s] (T, fst bw, w1)
          in Inr (best', w'))"

text \<open>The loop of line 66 over the bracket indices \<open>ss\<close>.\<close>

fun sweep ::
  "('v, 'w) adapter \<Rightarrow> 'v hyperband \<Rightarrow> 'v search_state \<Rightarrow> int list
     \<Rightarrow> 'v best_info \<times> ('v, 'w) world
     \<Rightarrow> error \<times> ('v, 'w) world + 'v best_info \<times> ('v, 'w) world" where
  "sweep A hb st [] bw = Inr bw"
| "sweep A hb st (s # ss) bw =
     (case run_bracket A hb st s bw of Inl e \<Rightarrow> Inl e | Inr bw' \<Rightarrow> sweep A hb st ss bw')"

subsection \<open>The run (lines 40 to 107)\<close>

text \<open>\<open>self.best_path.link(name)\<close>\<close>

definition link_best :: "string \<Rightarrow> ('v, 'w) world \<Rightarrow> ('v, 'w) world" where
  "link_best nm w = w\<lparr>best_link := Some nm, trace := trace w @ [LinkBest nm]\<rparr>"

text \<open>
  Lines 103 and 104: \<open>best_info['config']\<close> raises \<open>KeyError\<close> while the running best is
  still the first dictionary. The report after the link (lines 105 to 107) only reads.
\<close>

definition finalize ::
  "'v best_info \<Rightarrow> ('v, 'w) world \<Rightarrow> error \<times> ('v, 'w) world + ('v, 'w) world" where
  "finalize best w =
     (case best_config best of
        None \<Rightarrow> Inl (KeyError ''config'', w)
      | Some c \<Rightarrow> Inr (link_best (name c) w))"

definition run ::
  "('v, 'w) adapter \<Rightarrow> 'v hyperband \<Rightarrow> ('v, 'w) world
     \<Rightarrow> error \<times> ('v, 'w) world + ('v, 'w) world" where
  "run A hb w =
     (if best_link w \<noteq> None then Inr w
      else case init_state A hb w of
        Inl e \<Rightarrow> Inl e
      | Inr sw \<Rightarrow>
          (case sweep A hb (fst sw) (brackets hb) (initial_best, snd sw) of
             Inl e \<Rightarrow> Inl e
           | Inr bw \<Rightarrow> finalize (fst bw) (snd bw)))"

text \<open>Lines 166 to 168: \<open>hb = Hyperband(args, config_dict); hb.run()\<close>\<close>

definition main ::
  "('v, 'w) adapter \<Rightarrow> args \<Rightarrow> 'v params \<Rightarrow> ('v, 'w) world
     \<Rightarrow> error \<times> ('v, 'w) world + ('v, 'w) world" where
  "main A a cd w =
     (case hb_init A a cd w of
        Inl e \<Rightarrow> Inl (e, w)
      | Inr hb \<Rightarrow> run A hb w)"

text \<open>The world a run leaves behind, whether it returned or raised.\<close>

definition final_world :: "error \<times> ('v, 'w) world + ('v, 'w) world \<Rightarrow> ('v, 'w) world" where
  "final_world r = (case r of Inl ew \<Rightarrow> snd ew | Inr w \<Rightarrow> w)"

subsection \<open>What the sweep may touch\<close>

text \<open>The events of lines 66 to 101: saving a configuration and fitting one.\<close>

fun sweep_event :: "event \<Rightarrow> bool" where
  "sweep_event (SaveConfig nm) = True"
| "sweep_event (Fit nm n) = True"
| "sweep_event e = False"

text \<open>
  \<open>w'\<close> comes from \<open>w\<close> by sweep events only: the three files of the scheduler are the
  same and the trace grew by events of the sweep.
\<close>

definition sweeps_to :: "('v, 'w) world \<Rightarrow> ('v, 'w) world \<Rightarrow> bool" where
  "sweeps_to w w' =
     (config_file w' = config_file w \<and> state_file w' = state_file w \<and> best_link w' = best_link w
      \<and> take (length (trace w)) (trace w') = trace w
      \<and> list_all sweep_event (drop (length (trace w)) (trace w')))"

subsection \<open>A small collaborator for the examples\<close>

text \<open>
  Hyperparameter values are integers. The collaborator state is the number of samples
  drawn so far and the names of the configurations whose early-stop flag exists. The
  sampler returns the learning rates 0, 1, 2, ... in turn; a configuration with
  learning rate 2 stops early during its fit; the best reward of a configuration is its
  learning rate, reached at epoch 1. Its logarithm is the real one.
\<close>

definition demo :: "(int, nat \<times> string list) adapter" where
  "demo =
     \<lparr>str_value = str_int,
      path_truthy = (\<lambda>p. p \<noteq> []),
      math_log = ln,
      get_params = (\<lambda>cd x. ([(''lr'', int (fst x))], (Suc (fst x), snd x))),
      save = (\<lambda>c m d x. x),
      stopped_early = (\<lambda>c x. name c \<in> set (snd x)),
      fit = (\<lambda>c n x. if map_of (params c) ''lr'' = Some 2 then (fst x, name c # snd x) else x),
      load_best_reward = (\<lambda>c x. (map_option of_int (map_of (params c) ''lr''), 1))\<rparr>"

definition demo_args :: args where
  "demo_args =
     \<lparr>hyperband_path = ''hb'', model_path = Some ''m'', data_path = Some ''d'',
      train_epoch = Some 1\<rparr>"

definition demo_world :: "(int, nat \<times> string list) world" where
  "demo_world =
     \<lparr>config_file = None, state_file = None, best_link = None, ext = (0, []), trace = []\<rparr>"

text \<open>The scheduler built from \<open>demo_args\<close>: one bracket with one configuration.\<close>

definition demo_hb :: "int hyperband" where
  "demo_hb =
     \<lparr>hb_path = ''hb'', hb_model_path = ''m'', hb_data_path = ''d'', config_dict = [],
      max_iter = 1, s_max = 0, B = 1\<rparr>"

definition demo_config :: "int \<Rightarrow> int config" where
  "demo_config lr = materialize str_int ''hb'' [] [(''lr'', lr)]"

text \<open>
  The scheduler for a maximum epoch count of 3: two brackets, the first (\<open>s = 1\<close>) with
  three configurations.
\<close>

definition demo_hb3 :: "int hyperband" where
  "demo_hb3 =
     \<lparr>hb_path = ''hb'', hb_model_path = ''m'', hb_data_path = ''d'', config_dict = [],
      max_iter = 3, s_max = 1, B = 6\<rparr>"

text \<open>
  A second collaborator, like the first except for early stopping: the first component
  of its state counts the fits, and every fit after the first writes the early-stop flag
  of the configuration it fits (a configuration that stops early at its second fit).
\<close>

definition demo_second :: "(int, nat \<times> string list) adapter" where
  "demo_second =
     demo\<lparr>get_params := (\<lambda>cd x. ([(''lr'', 1)], x)),
          fit := (\<lambda>c n x. (Suc (fst x), if 0 < fst x then name c # snd x else snd x))\<rparr>"

section \<open>Properties\<close>

subsection \<open>Dictionaries, ranking and bounds on e\<close>

lemma map_of_dict_set: "map_of (dict_set k v d) = (map_of d)(k \<mapsto> v)"
  by (induction d) (auto simp: fun_eq_iff)

lemma keys_dict_set: "fst ` set (dict_set k v d) = insert k (fst ` set d)"
  by (induction d) auto

lemma distinct_dict_set: "distinct (map fst d) \<Longrightarrow> distinct (map fst (dict_set k v d))"
  by (induction d) (auto simp: keys_dict_set)

lemma map_of_dict_update:
  "distinct (map fst other) \<Longrightarrow> map_of (dict_update d other) = map_of d ++ map_of other"
  unfolding dict_update_def
proof (induction other arbitrary: d)
  case Nil
  then show ?case by simp
next
  case (Cons kv other)
  have "fst kv \<notin> dom (map_of other)" using Cons.prems by (auto simp: dom_map_of_conv_image_fst)
  then have "map_of other (fst kv) = None" by blast
  then show ?case using Cons
    by (cases kv) (auto simp: map_of_dict_set fun_eq_iff map_add_def split: option.splits)
qed




lemma eta_gt_2: "2 < eta"
proof -
  have "1 + (1::real) + 1\<^sup>2 / 2 \<le> exp 1" by (rule exp_lower_Taylor_quadratic) simp
  then show ?thesis by (simp add: eta_def)
qed

lemma eta_le_3: "eta \<le> 3"
  by (simp add: eta_def exp_le)

lemma py_int_nonneg: "0 \<le> x \<Longrightarrow> py_int x = \<lfloor>x\<rfloor>"
  by (simp add: py_int_def)

lemma slice_to_nonneg: "0 \<le> k \<Longrightarrow> slice_to k xs = take (nat k) xs"
  by (simp add: slice_to_def)


lemma train_configs_Nil: "train_configs A n [] acc = acc" by simp



lemma eta_pos: "0 < eta" by (simp add: eta_def)




subsection \<open>Integers and their decimal strings\<close>

lemma digit_char_props_all:
  "\<forall>d\<in>{0..<10}. is_digit (digit_char d) \<and> \<not> is_space (digit_char d) \<and> of_char (digit_char d) - 48 = d
      \<and> digit_char d \<noteq> CHR ''-'' \<and> digit_char d \<noteq> CHR ''+''"
  by code_simp

lemma digit_char_props:
  assumes "d < 10"
  shows "is_digit (digit_char d)" "\<not> is_space (digit_char d)" "of_char (digit_char d) - 48 = d"
    "digit_char d \<noteq> CHR ''-''" "digit_char d \<noteq> CHR ''+''"
  using digit_char_props_all assms by auto

lemma digits_str_nat: "c \<in> set (str_nat n) \<Longrightarrow> is_digit c"
proof (induction n rule: str_nat.induct)
  case (1 n)
  show ?case
  proof (cases "n < 10")
    case True
    with "1.prems" show ?thesis by (subst (asm) str_nat.simps) (simp add: digit_char_props)
  next
    case False
    with "1.prems" "1.IH" show ?thesis
      by (subst (asm) str_nat.simps) (auto simp: digit_char_props)
  qed
qed

lemma str_nat_nonempty: "str_nat n \<noteq> []"
  by (subst str_nat.simps) simp

lemma digits_value_all_digits:
  "\<forall>c\<in>set cs. is_digit c \<Longrightarrow>
     digits_value acc cs = Some (foldl (\<lambda>a c. 10 * a + (of_char c - 48)) acc cs)"
  by (induction cs arbitrary: acc) auto

lemma foldl_str_nat: "foldl (\<lambda>a c. 10 * a + (of_char c - 48)) 0 (str_nat n) = n"
proof (induction n rule: str_nat.induct)
  case (1 n)
  show ?case
  proof (cases "n < 10")
    case True
    then show ?thesis by (subst str_nat.simps) (simp add: digit_char_props)
  next
    case False
    with "1.IH" show ?thesis
      by (subst str_nat.simps) (simp add: digit_char_props)
  qed
qed

lemma nat_of_digits_str_nat: "nat_of_digits (str_nat n) = Some n"
proof -
  obtain c cs where cs: "str_nat n = c # cs" using str_nat_nonempty[of n] by (cases "str_nat n") auto
  have all: "\<forall>c\<in>set (str_nat n). is_digit c" using digits_str_nat by blast
  then have "is_digit c" using cs by simp
  then show ?thesis
    using digits_value_all_digits[OF all, of 0] foldl_str_nat[of n] cs
    by (simp add: nat_of_digits_def)
qed

lemma last_str_nat: "last (str_nat n) = digit_char (n mod 10)"
  by (subst str_nat.simps) simp

lemma hd_str_nat_digit: "is_digit (hd (str_nat n))"
  using digits_str_nat[of "hd (str_nat n)" n] str_nat_nonempty[of n] by simp

lemma is_digit_not_space: "is_digit c \<Longrightarrow> \<not> is_space c"
  by (auto simp: is_digit_def is_space_def less_eq_char_def)

lemma dropWhile_hd: "s \<noteq> [] \<Longrightarrow> \<not> P (hd s) \<Longrightarrow> dropWhile P s = s"
  by (cases s) auto

lemma strip_id: "s \<noteq> [] \<Longrightarrow> \<not> is_space (hd s) \<Longrightarrow> \<not> is_space (last s) \<Longrightarrow> strip s = s"
  by (simp add: strip_def dropWhile_hd hd_rev)

lemma strip_str_nat: "strip (str_nat n) = str_nat n"
proof (rule strip_id)
  show "str_nat n \<noteq> []" by (rule str_nat_nonempty)
  show "\<not> is_space (hd (str_nat n))" using hd_str_nat_digit by (rule is_digit_not_space)
  show "\<not> is_space (last (str_nat n))" by (simp add: last_str_nat digit_char_props)
qed

lemma strip_minus_str_nat: "strip (CHR ''-'' # str_nat n) = CHR ''-'' # str_nat n"
proof (rule strip_id)
  show "\<not> is_space (hd (CHR ''-'' # str_nat n))" by (simp add: is_space_def)
  show "\<not> is_space (last (CHR ''-'' # str_nat n))"
    by (simp add: str_nat_nonempty last_str_nat digit_char_props)
qed simp

lemma hd_str_nat_no_sign: "str_nat n = c # cs \<Longrightarrow> c \<noteq> CHR ''-'' \<and> c \<noteq> CHR ''+''"
  using hd_str_nat_digit[of n] by (auto simp: is_digit_def less_eq_char_def)

lemma int_of_str_str_int: "int_of_str (str_int i) = Inr i"
proof (cases "i < 0")
  case True
  then show ?thesis
    by (simp add: int_of_str_def str_int_def strip_minus_str_nat nat_of_digits_str_nat)
next
  case False
  obtain c cs where cs: "str_nat (nat i) = c # cs"
    using str_nat_nonempty[of "nat i"] by (cases "str_nat (nat i)") auto
  have "nat_of_digits (c # cs) = Some (nat i)" using nat_of_digits_str_nat[of "nat i"] cs by simp
  moreover have "strip (c # cs) = c # cs" using strip_str_nat[of "nat i"] cs by simp
  ultimately show ?thesis using False hd_str_nat_no_sign[OF cs]
    by (simp add: int_of_str_def str_int_def cs)
qed

lemma int_keys_roundtrip_aux:
  "int_keys (map (\<lambda>kv. (str_int (fst kv), snd kv)) st) acc = Inr (fold (\<lambda>kv a. dict_set (fst kv) (snd kv) a) st acc)"
  by (induction st arbitrary: acc) (simp_all add: int_of_str_str_int)

lemma dict_set_fresh: "k \<notin> fst ` set d \<Longrightarrow> dict_set k v d = d @ [(k, v)]"
  by (induction d) auto

lemma fold_dict_set_distinct:
  "distinct (map fst (acc @ st)) \<Longrightarrow> fold (\<lambda>kv a. dict_set (fst kv) (snd kv) a) st acc = acc @ st"
proof (induction st arbitrary: acc)
  case Nil
  then show ?case by simp
next
  case (Cons kv st)
  have "fst kv \<notin> fst ` set acc" using Cons.prems by auto
  then have "dict_set (fst kv) (snd kv) acc = acc @ [kv]" by (simp add: dict_set_fresh)
  moreover have "distinct (map fst ((acc @ [kv]) @ st))" using Cons.prems by simp
  ultimately show ?case using Cons.IH[of "acc @ [kv]"] by simp
qed

lemma int_keys_roundtrip:
  "distinct (map fst st) \<Longrightarrow> int_keys (map (\<lambda>kv. (str_int (fst kv), snd kv)) st) [] = Inr st"
  using fold_dict_set_distinct[of "[]" st] by (simp add: int_keys_roundtrip_aux)

subsection \<open>State materialisation\<close>

lemma sample_params_effect:
  "sample_params A cd n w = (ps, w') \<Longrightarrow>
     length ps = n \<and> trace w' = trace w @ replicate n GetParams
     \<and> state_file w' = state_file w \<and> best_link w' = best_link w \<and> config_file w' = config_file w"
proof (induction n arbitrary: w ps w')
  case 0
  then show ?case by simp
next
  case (Suc n)
  obtain p x where g: "get_params A cd (ext w) = (p, x)" by (cases "get_params A cd (ext w)")
  let ?w1 = "w\<lparr>ext := x, trace := trace w @ [GetParams]\<rparr>"
  obtain qs w2 where r: "sample_params A cd n ?w1 = (qs, w2)" by (cases "sample_params A cd n ?w1")
  from Suc.prems g r have "ps = p # qs" "w' = w2" by simp_all
  with Suc.IH[OF r] show ?case by (simp add: replicate_app_Cons_same)
qed

lemma generate_effect:
  "generate A hb ss st w = (st', w') \<Longrightarrow>
     trace w' = trace w @ concat (map (\<lambda>s. replicate (nat (n_initial hb s)) GetParams) ss)
     \<and> state_file w' = state_file w \<and> best_link w' = best_link w \<and> config_file w' = config_file w"
proof (induction ss arbitrary: st w)
  case Nil
  then show ?case by simp
next
  case (Cons s ss)
  obtain ps w1 where sp: "sample_params A (config_dict hb) (nat (n_initial hb s)) w = (ps, w1)"
    by (cases "sample_params A (config_dict hb) (nat (n_initial hb s)) w")
  with Cons.prems have g: "generate A hb ss (dict_set s ps st) w1 = (st', w')" by simp
  from Cons.IH[OF g] sample_params_effect[OF sp] show ?case by simp
qed

lemma generate_state:
  "generate A hb ss st w = (st', w') \<Longrightarrow>
     (\<forall>s\<in>set ss. \<exists>ps. map_of st' s = Some ps \<and> length ps = nat (n_initial hb s))
     \<and> (\<forall>k. k \<notin> set ss \<longrightarrow> map_of st' k = map_of st k)"
proof (induction ss arbitrary: st w)
  case Nil
  then show ?case by simp
next
  case (Cons s ss)
  obtain ps w1 where sp: "sample_params A (config_dict hb) (nat (n_initial hb s)) w = (ps, w1)"
    by (cases "sample_params A (config_dict hb) (nat (n_initial hb s)) w")
  with Cons.prems have g: "generate A hb ss (dict_set s ps st) w1 = (st', w')" by simp
  have len: "length ps = nat (n_initial hb s)" using sample_params_effect[OF sp] by simp
  from Cons.IH[OF g] len show ?case by (auto simp: map_of_dict_set)
qed

lemma generate_keys:
  "generate A hb ss st w = (st', w') \<Longrightarrow> distinct (map fst st @ ss) \<Longrightarrow> map fst st' = map fst st @ ss"
proof (induction ss arbitrary: st w)
  case Nil
  then show ?case by simp
next
  case (Cons s ss)
  obtain ps w1 where sp: "sample_params A (config_dict hb) (nat (n_initial hb s)) w = (ps, w1)"
    by (cases "sample_params A (config_dict hb) (nat (n_initial hb s)) w")
  with Cons.prems have g: "generate A hb ss (dict_set s ps st) w1 = (st', w')" by simp
  have "s \<notin> fst ` set st" using Cons.prems(2) by auto
  then have ds: "dict_set s ps st = st @ [(s, ps)]" by (rule dict_set_fresh)
  have "distinct (map fst (dict_set s ps st) @ ss)" using Cons.prems(2) by (simp add: ds)
  from Cons.IH[OF g this] show ?case by (simp add: ds)
qed

lemma distinct_brackets: "distinct (brackets hb)"
  by (simp add: brackets_def)

lemma load_state_saved:
  "distinct (map fst st) \<Longrightarrow> load_state (save_state st w) = Inr (Some st)"
  by (simp add: load_state_def save_state_def int_keys_roundtrip)

subsection \<open>The frame of the sweep\<close>

lemma sweeps_to_refl: "sweeps_to w w"
  by (simp add: sweeps_to_def)

lemma sweeps_to_trans: "sweeps_to w w1 \<Longrightarrow> sweeps_to w1 w2 \<Longrightarrow> sweeps_to w w2"
proof -
  assume a: "sweeps_to w w1" and b: "sweeps_to w1 w2"
  from a obtain e1 where e1: "trace w1 = trace w @ e1" "list_all sweep_event e1"
    unfolding sweeps_to_def by (metis append_take_drop_id)
  from b obtain e2 where e2: "trace w2 = trace w1 @ e2" "list_all sweep_event e2"
    unfolding sweeps_to_def by (metis append_take_drop_id)
  show ?thesis using a b e1 e2 by (simp add: sweeps_to_def)
qed

lemma sweeps_to_step:
  "sweep_event e \<Longrightarrow> sweeps_to w (w\<lparr>ext := x, trace := trace w @ [e]\<rparr>)"
  by (simp add: sweeps_to_def)

lemma max_by_reward_mono: "best_reward b \<le> best_reward (max_by_reward b i)"
  by (simp add: max_by_reward_def less_imp_le)

lemma train_configs_frame:
  "train_configs A n T (b, rs, w) = (b', rs', w') \<Longrightarrow>
     sweeps_to w w' \<and> best_reward b \<le> best_reward b'"
proof (induction T arbitrary: b rs w)
  case Nil
  then show ?case by (simp add: sweeps_to_refl)
next
  case (Cons c cs)
  show ?case
  proof (cases "stopped_early A c (ext w)")
    case True
    with Cons.prems have "train_configs A n cs (b, rs, w) = (b', rs', w')" by simp
    then show ?thesis by (rule Cons.IH)
  next
    case False
    let ?x = "fit A c n (ext w)"
    let ?w1 = "w\<lparr>ext := ?x, trace := trace w @ [Fit (name c) n]\<rparr>"
    let ?i = "\<lparr>reward = fst (load_best_reward A c ?x), config = c, epoch = snd (load_best_reward A c ?x)\<rparr>"
    let ?rs1 = "if \<not> stopped_early A c ?x then rs @ [?i] else rs"
    from False Cons.prems have "train_configs A n cs (max_by_reward b ?i, ?rs1, ?w1) = (b', rs', w')"
      by (simp add: Let_def split_beta)
    from Cons.IH[OF this] have "sweeps_to ?w1 w'" "best_reward (max_by_reward b ?i) \<le> best_reward b'"
      by simp_all
    moreover have "sweeps_to w ?w1" by (rule sweeps_to_step) simp
    ultimately show ?thesis using max_by_reward_mono[of b ?i] sweeps_to_trans by (meson order_trans)
  qed
qed

lemma run_round_frame:
  "run_round A hb s n i (T, b, w) = (T', b', w') \<Longrightarrow> sweeps_to w w' \<and> best_reward b \<le> best_reward b'"
proof -
  assume a: "run_round A hb s n i (T, b, w) = (T', b', w')"
  obtain b1 rs w1 where
    tc: "train_configs A (py_round (r_initial hb s * eta powi i)) T (b, [], w) = (b1, rs, w1)"
    by (metis prod_cases3)
  with a have "b' = b1" "w' = w1" by (simp_all add: run_round_def Let_def)
  with train_configs_frame[OF tc] show ?thesis by simp
qed

lemma fold_run_round_frame:
  "fold (run_round A hb s n) rounds (T, b, w) = (T', b', w') \<Longrightarrow>
     sweeps_to w w' \<and> best_reward b \<le> best_reward b'"
proof (induction rounds arbitrary: T b w)
  case Nil
  then show ?case by (simp add: sweeps_to_refl)
next
  case (Cons i rounds)
  obtain T1 b1 w1 where r: "run_round A hb s n i (T, b, w) = (T1, b1, w1)" by (metis prod_cases3)
  with Cons.prems have "fold (run_round A hb s n) rounds (T1, b1, w1) = (T', b', w')" by simp
  from Cons.IH[OF this] run_round_frame[OF r] show ?case
    using sweeps_to_trans by (meson order_trans)
qed

lemma save_configs_frame:
  "save_configs A hb ps w = (T, w') \<Longrightarrow> sweeps_to w w' \<and> length T = length ps"
proof (induction ps arbitrary: w T w')
  case Nil
  then show ?case by (simp add: sweeps_to_refl)
next
  case (Cons p ps)
  let ?t = "materialize (str_value A) (hb_path hb) (config_dict hb) p"
  let ?w1 = "w\<lparr>ext := save A ?t (hb_model_path hb) (hb_data_path hb) (ext w),
                 trace := trace w @ [SaveConfig (name ?t)]\<rparr>"
  obtain ts w2 where r: "save_configs A hb ps ?w1 = (ts, w2)" by (cases "save_configs A hb ps ?w1")
  with Cons.prems have eq: "T = ?t # ts" "w' = w2" by (simp_all add: Let_def)
  have "sweeps_to w ?w1" by (rule sweeps_to_step) simp
  with Cons.IH[OF r] eq show ?case using sweeps_to_trans by auto
qed

lemma run_bracket_frame:
  "run_bracket A hb st s (b, w) = Inr (b', w') \<Longrightarrow> sweeps_to w w' \<and> best_reward b \<le> best_reward b'"
  "run_bracket A hb st s (b, w) = Inl (e, w') \<Longrightarrow> w' = w"
proof -
  assume a: "run_bracket A hb st s (b, w) = Inr (b', w')"
  then obtain ps where ps: "dict_get str_int st s = Inr ps"
    by (auto simp: run_bracket_def split: sum.splits)
  obtain T w1 where sc: "save_configs A hb ps w = (T, w1)" by (cases "save_configs A hb ps w")
  obtain T2 b2 w2 where f: "fold (run_round A hb s (length T)) [0..s] (T, b, w1) = (T2, b2, w2)"
    by (metis prod_cases3)
  from a ps sc f have "b' = b2" "w' = w2" by (simp_all add: run_bracket_def)
  with save_configs_frame[OF sc] fold_run_round_frame[OF f] show "sweeps_to w w' \<and> best_reward b \<le> best_reward b'"
    using sweeps_to_trans by auto
next
  assume "run_bracket A hb st s (b, w) = Inl (e, w')"
  then show "w' = w" by (auto simp: run_bracket_def split: sum.splits prod.splits)
qed

lemma sweep_frame:
  "sweep A hb st ss (b, w) = Inr (b', w') \<Longrightarrow> sweeps_to w w' \<and> best_reward b \<le> best_reward b'"
proof (induction ss arbitrary: b w)
  case Nil
  then show ?case by (simp add: sweeps_to_refl)
next
  case (Cons s ss)
  from Cons.prems obtain b1 w1 where rb: "run_bracket A hb st s (b, w) = Inr (b1, w1)"
    by (auto split: sum.splits)
  with Cons.prems have "sweep A hb st ss (b1, w1) = Inr (b', w')" by simp
  from Cons.IH[OF this] run_bracket_frame(1)[OF rb] show ?case
    using sweeps_to_trans by (meson order_trans)
qed

subsection \<open>Early stopping, the running best, the short circuit\<close>

lemma select_survivors_subset: "set (select_survivors nc rs) \<subseteq> config ` set rs"
proof -
  have "set (slice_to k (sorted_reverse reward rs)) \<subseteq> set rs" for k
    by (auto simp: slice_to_def sorted_reverse_def dest: in_set_takeD)
  then show ?thesis by (auto simp: select_survivors_def)
qed

lemma train_configs_append:
  "train_configs A k (xs @ ys) acc = train_configs A k ys (train_configs A k xs acc)"
proof (induction xs arbitrary: acc)
  case Nil
  then show ?case by simp
next
  case (Cons c cs)
  obtain b rs w where acc: "acc = (b, rs, w)" by (metis prod_cases3)
  show ?case unfolding acc by (simp add: Cons.IH Let_def split_beta)
qed

lemma train_configs_results:
  "train_configs A k T (b, rs, w) = (b', rs', w') \<Longrightarrow>
     \<exists>new. rs' = rs @ new \<and> config ` set new \<subseteq> set T"
proof (induction T arbitrary: b rs w)
  case Nil
  then show ?case by simp
next
  case (Cons c cs)
  show ?case
  proof (cases "stopped_early A c (ext w)")
    case True
    with Cons.prems have "train_configs A k cs (b, rs, w) = (b', rs', w')" by simp
    from Cons.IH[OF this] show ?thesis by auto
  next
    case False
    let ?x = "fit A c k (ext w)"
    let ?w1 = "w\<lparr>ext := ?x, trace := trace w @ [Fit (name c) k]\<rparr>"
    let ?i = "\<lparr>reward = fst (load_best_reward A c ?x), config = c, epoch = snd (load_best_reward A c ?x)\<rparr>"
    let ?rs1 = "if \<not> stopped_early A c ?x then rs @ [?i] else rs"
    from False Cons.prems have "train_configs A k cs (max_by_reward b ?i, ?rs1, ?w1) = (b', rs', w')"
      by (simp add: Let_def split_beta)
    from Cons.IH[OF this] obtain new where new: "rs' = ?rs1 @ new" "config ` set new \<subseteq> set cs" by blast
    show ?thesis
    proof (cases "stopped_early A c ?x")
      case True
      with new show ?thesis by auto
    next
      case False
      with new have "rs' = rs @ (?i # new)" by simp
      moreover have "config ` set (?i # new) \<subseteq> set (c # cs)" using new(2) by auto
      ultimately show ?thesis by blast
    qed
  qed
qed

lemma train_configs_unflagged:
  assumes loc: "\<And>c1 c2 m x. name c2 \<noteq> name c1 \<Longrightarrow> stopped_early A c1 (fit A c2 m x) = stopped_early A c1 x"
  shows "train_configs A k T (b, rs, w) = (b', rs', w') \<Longrightarrow> distinct (map name T) \<Longrightarrow>
     \<forall>j\<in>set rs. \<not> stopped_early A (config j) (ext w) \<and> name (config j) \<notin> name ` set T \<Longrightarrow>
     \<forall>j\<in>set rs'. \<not> stopped_early A (config j) (ext w')"
proof (induction T arbitrary: b rs w)
  case Nil
  then show ?case by simp
next
  case (Cons c cs)
  show ?case
  proof (cases "stopped_early A c (ext w)")
    case True
    with Cons.prems(1) have tc: "train_configs A k cs (b, rs, w) = (b', rs', w')" by simp
    show ?thesis
      by (rule Cons.IH[OF tc]) (use Cons.prems in auto)
  next
    case False
    let ?x = "fit A c k (ext w)"
    let ?w1 = "w\<lparr>ext := ?x, trace := trace w @ [Fit (name c) k]\<rparr>"
    let ?i = "\<lparr>reward = fst (load_best_reward A c ?x), config = c, epoch = snd (load_best_reward A c ?x)\<rparr>"
    let ?rs1 = "if \<not> stopped_early A c ?x then rs @ [?i] else rs"
    from False Cons.prems(1) have tc: "train_configs A k cs (max_by_reward b ?i, ?rs1, ?w1) = (b', rs', w')"
      by (simp add: Let_def split_beta)
    have old: "\<not> stopped_early A (config j) ?x \<and> name (config j) \<notin> name ` set cs" if "j \<in> set rs" for j
    proof -
      from that Cons.prems(3) have a: "\<not> stopped_early A (config j) (ext w)"
        and b: "name (config j) \<notin> name ` set (c # cs)" by auto
      from b have "name c \<noteq> name (config j)" by auto
      then have "stopped_early A (config j) ?x = stopped_early A (config j) (ext w)" by (rule loc)
      with a b show ?thesis by auto
    qed
    have cnew: "name c \<notin> name ` set cs" using Cons.prems(2) by auto
    show ?thesis
    proof (rule Cons.IH[OF tc])
      show "distinct (map name cs)" using Cons.prems(2) by simp
      show "\<forall>j\<in>set ?rs1. \<not> stopped_early A (config j) (ext ?w1) \<and> name (config j) \<notin> name ` set cs"
        using old cnew by auto
    qed
  qed
qed

lemma reward_le_max_by_reward: "reward i \<le> best_reward (max_by_reward b i)"
  by (simp add: max_by_reward_def not_less)

text \<open>
  Claim C3, as amended. Let the round's \<open>T\<close> be \<open>pre @ c # post\<close> with no two entries
  sharing a name (a name is the configuration's directory, where its early-stop flag
  lives), and let \<open>(b1, rs1, w1)\<close> be the running best, the results and the world when
  the loop reaches \<open>c\<close>. If the flag of \<open>c\<close> exists then, the loop goes on with
  \<open>post\<close> from \<open>(b1, rs1, w1)\<close> itself: nothing is fitted, nothing is recorded, the
  running best is the same; and \<open>c\<close> is not in the next \<open>T\<close>. Otherwise \<open>c\<close> is
  fitted, the running best at the end of the round is at least its reward, and if its
  flag exists after the fit, \<open>c\<close> is not in the next \<open>T\<close>, whatever that reward. When
  moreover a fit touches no flag of a configuration with another name, every member of
  the next \<open>T\<close> comes from \<open>T\<close> and has no flag when the round ends.
\<close>

theorem early_stop_exclusion:
  fixes A :: "('v, 'w) adapter"
  assumes d: "distinct (map name (pre @ c # post))"
      and k: "k = py_round (r_initial hb s * eta powi i)"
      and p: "train_configs A k pre (b, [], w) = (b1, rs1, w1)"
      and r: "run_round A hb s n i (pre @ c # post, b, w) = (T', b', w')"
  shows "(stopped_early A c (ext w1) \<longrightarrow>
            train_configs A k (pre @ c # post) (b, [], w) = train_configs A k post (b1, rs1, w1)
            \<and> c \<notin> set T')
       \<and> (\<not> stopped_early A c (ext w1) \<longrightarrow>
            fst (load_best_reward A c (fit A c k (ext w1))) \<le> best_reward b'
            \<and> (stopped_early A c (fit A c k (ext w1)) \<longrightarrow> c \<notin> set T'))
       \<and> ((\<forall>c1 c2 m x. name c2 \<noteq> name c1 \<longrightarrow>
               stopped_early A c1 (fit A c2 m x) = stopped_early A c1 x) \<longrightarrow>
            (\<forall>t\<in>set T'. t \<in> set (pre @ c # post) \<and> \<not> stopped_early A t (ext w')))"
proof -
  let ?T = "pre @ c # post"
  obtain bb results ww where tc: "train_configs A k ?T (b, [], w) = (bb, results, ww)"
    by (metis prod_cases3)
  from r tc k have T': "T' = select_survivors (of_nat n * eta powi (- i)) results"
    and bw: "b' = bb" "w' = ww"
    by (simp_all add: run_round_def Let_def)
  have sub: "set T' \<subseteq> config ` set results" unfolding T' by (rule select_survivors_subset)
  have split: "train_configs A k ?T (b, [], w) = train_configs A k (c # post) (b1, rs1, w1)"
    by (simp add: train_configs_append p)
  from train_configs_results[OF p] have rs1: "config ` set rs1 \<subseteq> set pre" by auto
  have cpre: "c \<notin> set pre" and cpost: "c \<notin> set post" using d by auto
  have absent: "c \<notin> set T'"
    if st: "train_configs A k post (b2, rs1, w2) = (bb, results, ww)" for b2 w2
  proof -
    from train_configs_results[OF st] obtain new where "results = rs1 @ new" "config ` set new \<subseteq> set post"
      by blast
    with rs1 have "config ` set results \<subseteq> set pre \<union> set post" by auto
    with cpre cpost sub show ?thesis by auto
  qed
  have A1: "train_configs A k ?T (b, [], w) = train_configs A k post (b1, rs1, w1) \<and> c \<notin> set T'"
    if f: "stopped_early A c (ext w1)"
  proof -
    from f have e: "train_configs A k ?T (b, [], w) = train_configs A k post (b1, rs1, w1)"
      by (simp add: split)
    with tc have "train_configs A k post (b1, rs1, w1) = (bb, results, ww)" by simp
    from absent[OF this] e show ?thesis by simp
  qed
  have A2: "fst (load_best_reward A c (fit A c k (ext w1))) \<le> best_reward b'
            \<and> (stopped_early A c (fit A c k (ext w1)) \<longrightarrow> c \<notin> set T')"
    if nf: "\<not> stopped_early A c (ext w1)"
  proof -
    let ?x = "fit A c k (ext w1)"
    let ?w2 = "w1\<lparr>ext := ?x, trace := trace w1 @ [Fit (name c) k]\<rparr>"
    let ?i = "\<lparr>reward = fst (load_best_reward A c ?x), config = c, epoch = snd (load_best_reward A c ?x)\<rparr>"
    let ?rs2 = "if \<not> stopped_early A c ?x then rs1 @ [?i] else rs1"
    from nf split tc have st: "train_configs A k post (max_by_reward b1 ?i, ?rs2, ?w2) = (bb, results, ww)"
      by (simp add: Let_def split_beta)
    from train_configs_frame[OF st] have "best_reward (max_by_reward b1 ?i) \<le> best_reward bb" by simp
    moreover have "reward ?i \<le> best_reward (max_by_reward b1 ?i)" by (rule reward_le_max_by_reward)
    ultimately have le: "fst (load_best_reward A c ?x) \<le> best_reward b'" using bw by simp
    have "c \<notin> set T'" if "stopped_early A c ?x"
    proof -
      from that st have "train_configs A k post (max_by_reward b1 ?i, rs1, ?w2) = (bb, results, ww)" by simp
      then show ?thesis by (rule absent)
    qed
    with le show ?thesis by simp
  qed
  have A3: "\<forall>t\<in>set T'. t \<in> set ?T \<and> \<not> stopped_early A t (ext w')"
    if loc: "\<forall>c1 c2 m x. name c2 \<noteq> name c1 \<longrightarrow> stopped_early A c1 (fit A c2 m x) = stopped_early A c1 x"
  proof -
    have "\<forall>j\<in>set results. \<not> stopped_early A (config j) (ext ww)"
      by (rule train_configs_unflagged[OF _ tc d]) (use loc in auto)
    moreover from train_configs_results[OF tc] have "config ` set results \<subseteq> set ?T" by auto
    ultimately show ?thesis using sub bw by (metis image_iff subsetD)
  qed
  from A1 A2 A3 show ?thesis by blast
qed

lemma finalize_Inr:
  "finalize best w = Inr w' \<Longrightarrow>
     \<exists>c. best_config best = Some c \<and> trace w' = trace w @ [LinkBest (name c)] \<and> best_link w' = Some (name c)
        \<and> config_file w' = config_file w \<and> state_file w' = state_file w \<and> ext w' = ext w"
  by (auto simp: finalize_def link_best_def split: option.splits)

lemma init_state_no_link:
  "init_state A hb w = Inr (st, w1) \<Longrightarrow>
     best_link w1 = best_link w \<and> take (length (trace w)) (trace w1) = trace w
     \<and> (\<forall>nm. LinkBest nm \<notin> set (drop (length (trace w)) (trace w1)))"
proof -
  assume a: "init_state A hb w = Inr (st, w1)"
  show ?thesis
  proof (cases "w1 = w")
    case True
    then show ?thesis by simp
  next
    case False
    with a have gs: "generate_and_save A hb w = (st, w1)"
      by (auto simp: init_state_def split: sum.splits option.splits if_splits)
    obtain st' w' where g: "generate A hb (brackets hb) [] w = (st', w')"
      by (cases "generate A hb (brackets hb) [] w")
    with gs have "w1 = save_state st' w'" by (auto simp: generate_and_save_def)
    with generate_effect[OF g] show ?thesis by (auto simp: save_state_def)
  qed
qed

lemma sweeps_to_no_link:
  "sweeps_to w w' \<Longrightarrow> LinkBest nm \<notin> set (drop (length (trace w)) (trace w'))"
proof
  assume a: "sweeps_to w w'" and b: "LinkBest nm \<in> set (drop (length (trace w)) (trace w'))"
  from a have "list_all sweep_event (drop (length (trace w)) (trace w'))" by (simp add: sweeps_to_def)
  with b have "sweep_event (LinkBest nm)" by (auto simp: list_all_iff)
  then show False by simp
qed

lemma sweeps_to_trace: "sweeps_to w w' \<Longrightarrow> \<exists>evs. trace w' = trace w @ evs \<and> list_all sweep_event evs"
  unfolding sweeps_to_def by (metis append_take_drop_id)

text \<open>
  When no fitted configuration ever reported a reward above negative infinity, the
  running best is still the first dictionary and line 103 raises instead of linking.
\<close>

lemma finalize_initial_best: "finalize initial_best w = Inl (KeyError ''config'', w)"
  by (simp add: finalize_def initial_best_def)

text \<open>
  The running best starts with the least reward (negative infinity). An update never
  lowers its reward: it is replaced exactly when the incoming reward is strictly
  greater, and kept on a tie or a smaller reward. Its reward does not decrease over a
  round's loop or over the sweep. A run that starts without a best marker and returns
  has swept from the initial best, has linked nothing before the sweep ended, and ends
  with the single link of the winning configuration's name.
\<close>

lemma running_best_properties:
  fixes A :: "('v, 'w) adapter"
  shows
  "(\<forall>r. best_reward (initial_best :: 'v best_info) \<le> r)
   \<and> best_reward b \<le> best_reward (max_by_reward b i)
   \<and> (reward i \<le> best_reward b \<longrightarrow> max_by_reward b i = b)
   \<and> (best_reward b < reward i \<longrightarrow>
        max_by_reward b i = \<lparr>best_reward = reward i, best_config = Some (config i), best_epoch = Some (epoch i)\<rparr>)
   \<and> best_reward b \<le> best_reward (fst (train_configs A n T (b, rs, w)))
   \<and> (sweep A hb st ss (b, w) = Inr (b', w') \<longrightarrow> best_reward b \<le> best_reward b')
   \<and> (best_link w = None \<and> run A hb w = Inr w'' \<longrightarrow>
        (\<exists>st0 w1 best w2 c evs.
            init_state A hb w = Inr (st0, w1)
          \<and> sweep A hb st0 (brackets hb) (initial_best, w1) = Inr (best, w2)
          \<and> best_config best = Some c
          \<and> trace w2 = trace w @ evs \<and> (\<forall>nm. LinkBest nm \<notin> set evs) \<and> best_link w2 = None
          \<and> trace w'' = trace w2 @ [LinkBest (name c)] \<and> best_link w'' = Some (name c)))"
proof (intro conjI impI allI)
  show "best_reward (initial_best :: 'v best_info) \<le> r" for r by (simp add: initial_best_def)
  show "best_reward b \<le> best_reward (max_by_reward b i)" by (rule max_by_reward_mono)
  show "max_by_reward b i = b" if "reward i \<le> best_reward b"
    using that by (simp add: max_by_reward_def not_less[symmetric])
  show "max_by_reward b i = \<lparr>best_reward = reward i, best_config = Some (config i), best_epoch = Some (epoch i)\<rparr>"
    if "best_reward b < reward i" using that by (simp add: max_by_reward_def)
  show "best_reward b \<le> best_reward (fst (train_configs A n T (b, rs, w)))"
    using train_configs_frame[of A n T b rs w] by (metis fst_conv prod_cases3)
  show "best_reward b \<le> best_reward b'" if "sweep A hb st ss (b, w) = Inr (b', w')"
    using sweep_frame[OF that] by simp
next
  assume a: "best_link w = None \<and> run A hb w = Inr w''"
  then obtain st0 w1 where i: "init_state A hb w = Inr (st0, w1)"
    by (auto simp: run_def split: sum.splits)
  with a obtain best w2 where s: "sweep A hb st0 (brackets hb) (initial_best, w1) = Inr (best, w2)"
    by (auto simp: run_def split: sum.splits)
  with a i have f: "finalize best w2 = Inr w''" by (auto simp: run_def)
  from finalize_Inr[OF f] obtain c where c: "best_config best = Some c"
    "trace w'' = trace w2 @ [LinkBest (name c)]" "best_link w'' = Some (name c)" by blast
  have sw: "sweeps_to w1 w2" using sweep_frame[OF s] by simp
  from sweeps_to_trace[OF sw] obtain e2 where e2: "trace w2 = trace w1 @ e2" "list_all sweep_event e2"
    by blast
  from init_state_no_link[OF i] have i1: "best_link w1 = None"
    "take (length (trace w)) (trace w1) = trace w"
    "\<forall>nm. LinkBest nm \<notin> set (drop (length (trace w)) (trace w1))" using a by simp_all
  define e1 where "e1 = drop (length (trace w)) (trace w1)"
  have t1: "trace w1 = trace w @ e1" unfolding e1_def using i1(2) by (metis append_take_drop_id)
  have nl2: "LinkBest nm \<notin> set e2" for nm
  proof
    assume "LinkBest nm \<in> set e2"
    with e2(2) have "sweep_event (LinkBest nm)" by (auto simp: list_all_iff)
    then show False by simp
  qed
  have "trace w2 = trace w @ (e1 @ e2)" using t1 e2(1) by simp
  moreover have "\<forall>nm. LinkBest nm \<notin> set (e1 @ e2)" using i1(3) nl2 by (simp add: e1_def)
  moreover have "best_link w2 = None" using sw i1(1) by (simp add: sweeps_to_def)
  ultimately show "\<exists>st0 w1 best w2 c evs.
            init_state A hb w = Inr (st0, w1)
          \<and> sweep A hb st0 (brackets hb) (initial_best, w1) = Inr (best, w2)
          \<and> best_config best = Some c
          \<and> trace w2 = trace w @ evs \<and> (\<forall>nm. LinkBest nm \<notin> set evs) \<and> best_link w2 = None
          \<and> trace w'' = trace w2 @ [LinkBest (name c)] \<and> best_link w'' = Some (name c)"
    using i s c by blast
qed

subsection \<open>Reuse of the persisted state\<close>

lemma sweep_frame_Inl:
  "sweep A hb st ss (b, w) = Inl (e, w') \<Longrightarrow> sweeps_to w w'"
proof (induction ss arbitrary: b w)
  case Nil
  then show ?case by simp
next
  case (Cons s ss)
  show ?case
  proof (cases "run_bracket A hb st s (b, w)")
    case (Inl ew)
    with Cons.prems have "ew = (e, w')" by simp
    with Inl run_bracket_frame(2)[of A hb st s b w e w'] show ?thesis by (simp add: sweeps_to_refl)
  next
    case (Inr bw)
    obtain b1 w1 where bw: "bw = (b1, w1)" by (cases bw)
    with Inr Cons.prems have "sweep A hb st ss (b1, w1) = Inl (e, w')" by simp
    from Cons.IH[OF this] run_bracket_frame(1)[of A hb st s b w b1 w1] Inr bw
    show ?thesis using sweeps_to_trans by blast
  qed
qed

lemma run_events_after_load:
  assumes i: "init_state A hb w = Inr (st, w)"
  shows "\<exists>evs. trace (final_world (run A hb w)) = trace w @ evs
           \<and> (\<forall>e\<in>set evs. sweep_event e \<or> (\<exists>nm. e = LinkBest nm))
           \<and> state_file (final_world (run A hb w)) = state_file w"
proof (cases "best_link w = None")
  case False
  then have "run A hb w = Inr w" by (simp add: run_def)
  then show ?thesis by (simp add: final_world_def)
next
  case True
  show ?thesis
  proof (cases "sweep A hb st (brackets hb) (initial_best, w)")
    case (Inl ew)
    obtain e w' where ew: "ew = (e, w')" by (cases ew)
    with Inl True i have r: "run A hb w = Inl (e, w')" by (simp add: run_def)
    from sweep_frame_Inl Inl ew have "sweeps_to w w'" by blast
    then obtain evs where "trace w' = trace w @ evs" "list_all sweep_event evs" "state_file w' = state_file w"
      using sweeps_to_trace by (auto simp: sweeps_to_def)
    with r show ?thesis by (auto simp: final_world_def list_all_iff)
  next
    case (Inr bw)
    obtain b' w' where bw: "bw = (b', w')" by (cases bw)
    with Inr True i have r: "run A hb w = finalize b' w'" by (simp add: run_def)
    from sweep_frame Inr bw have "sweeps_to w w'" by blast
    then obtain evs where evs: "trace w' = trace w @ evs" "list_all sweep_event evs" "state_file w' = state_file w"
      using sweeps_to_trace by (auto simp: sweeps_to_def)
    show ?thesis
    proof (cases "best_config b'")
      case None
      with r have "run A hb w = Inl (KeyError ''config'', w')" by (simp add: finalize_def)
      with evs show ?thesis by (auto simp: final_world_def list_all_iff)
    next
      case (Some c)
      with r have "run A hb w = Inr (link_best (name c) w')" by (simp add: finalize_def)
      then have "final_world (run A hb w) = link_best (name c) w'" by (simp add: final_world_def)
      moreover have "trace (link_best (name c) w') = trace w @ (evs @ [LinkBest (name c)])"
        "state_file (link_best (name c) w') = state_file w"
        using evs by (simp_all add: link_best_def)
      moreover have "\<forall>e\<in>set (evs @ [LinkBest (name c)]). sweep_event e \<or> (\<exists>nm. e = LinkBest nm)"
        using evs(2) by (auto simp: list_all_iff)
      ultimately show ?thesis by metis
    qed
  qed
qed

lemma run_no_sampling_after_load:
  assumes i: "init_state A hb w = Inr (st, w)"
  shows "GetParams \<notin> set (drop (length (trace w)) (trace (final_world (run A hb w))))"
    and "SaveState \<notin> set (drop (length (trace w)) (trace (final_world (run A hb w))))"
    and "state_file (final_world (run A hb w)) = state_file w"
proof -
  from run_events_after_load[OF i] obtain evs where
    e: "trace (final_world (run A hb w)) = trace w @ evs"
       "\<forall>e\<in>set evs. sweep_event e \<or> (\<exists>nm. e = LinkBest nm)"
       "state_file (final_world (run A hb w)) = state_file w" by blast
  have d: "drop (length (trace w)) (trace (final_world (run A hb w))) = evs" by (simp add: e(1))
  show "GetParams \<notin> set (drop (length (trace w)) (trace (final_world (run A hb w))))"
    unfolding d using e(2) by fastforce
  show "SaveState \<notin> set (drop (length (trace w)) (trace (final_world (run A hb w))))"
    unfolding d using e(2) by fastforce
  show "state_file (final_world (run A hb w)) = state_file w" by (rule e(3))
qed

lemma init_state_saved:
  assumes "state_file w = Some (map (\<lambda>kv. (str_int (fst kv), snd kv)) st)"
    and "distinct (map fst st)" and "st \<noteq> []"
  shows "init_state A hb w = Inr (st, w)"
  using assms by (simp add: init_state_def load_state_def int_keys_roundtrip)

text \<open>
  Claim C5. A persisted state is what \<open>save_state\<close> wrote: the brackets of a state
  with distinct integer keys, each key as its decimal string; the scheduler always has
  bracket 0, so the state has at least one bracket. When such a state exists, it is
  loaded with its keys converted back to integers and is the state the run sweeps, and
  the world is as it was; whether the run then returns or raises, it draws no sample and
  saves no state, and the state file is the one it found. When no state exists, the run
  samples \<open>n(s)\<close> parameter sets for each bracket from \<open>s_max\<close> down to 0 and then
  saves once, after the last sample; the file it leaves is a persisted state in the sense
  above and loads back to the generated state.
\<close>

theorem persisted_state_is_reused:
  fixes A :: "('v, 'w) adapter"
  shows
  "(state_file w = Some (map (\<lambda>kv. (str_int (fst kv), snd kv)) st) \<and> distinct (map fst st) \<and> st \<noteq> [] \<longrightarrow>
        init_state A hb w = Inr (st, w)
      \<and> GetParams \<notin> set (drop (length (trace w)) (trace (final_world (run A hb w))))
      \<and> SaveState \<notin> set (drop (length (trace w)) (trace (final_world (run A hb w))))
      \<and> state_file (final_world (run A hb w)) = state_file w)
   \<and> (state_file w = None \<longrightarrow>
        (\<exists>st' w'. init_state A hb w = Inr (st', w')
           \<and> trace w' = trace w @ concat (map (\<lambda>s. replicate (nat (n_initial hb s)) GetParams) (brackets hb)) @ [SaveState]
           \<and> map fst st' = brackets hb
           \<and> (\<forall>s\<in>set (brackets hb). \<exists>ps. map_of st' s = Some ps \<and> length ps = nat (n_initial hb s))
           \<and> best_link w' = best_link w \<and> config_file w' = config_file w
           \<and> state_file w' = Some (map (\<lambda>kv. (str_int (fst kv), snd kv)) st')
           \<and> distinct (map fst st') \<and> (0 \<le> s_max hb \<longrightarrow> st' \<noteq> [])
           \<and> load_state w' = Inr (Some st')))"
proof (intro conjI impI)
  assume a: "state_file w = Some (map (\<lambda>kv. (str_int (fst kv), snd kv)) st) \<and> distinct (map fst st) \<and> st \<noteq> []"
  then have i: "init_state A hb w = Inr (st, w)" by (simp add: init_state_saved)
  show "init_state A hb w = Inr (st, w)" by (rule i)
  show "GetParams \<notin> set (drop (length (trace w)) (trace (final_world (run A hb w))))"
    by (rule run_no_sampling_after_load(1)[OF i])
  show "SaveState \<notin> set (drop (length (trace w)) (trace (final_world (run A hb w))))"
    by (rule run_no_sampling_after_load(2)[OF i])
  show "state_file (final_world (run A hb w)) = state_file w"
    by (rule run_no_sampling_after_load(3)[OF i])
next
  assume a: "state_file w = None"
  obtain st' w1 where g: "generate A hb (brackets hb) [] w = (st', w1)"
    by (cases "generate A hb (brackets hb) [] w")
  let ?w' = "save_state st' w1"
  have i: "init_state A hb w = Inr (st', ?w')"
    using a g by (auto simp: init_state_def load_state_def generate_and_save_def)
  have keys: "map fst st' = brackets hb"
    using generate_keys[OF g] distinct_brackets[of hb] by simp
  then have d: "distinct (map fst st')" by (simp add: distinct_brackets[of hb])
  have l: "load_state ?w' = Inr (Some st')" using d by (rule load_state_saved)
  have ne: "st' \<noteq> []" if "0 \<le> s_max hb"
  proof -
    have "brackets hb \<noteq> []" using that by (simp add: brackets_def upto_rec1)
    with keys show ?thesis by auto
  qed
  show "\<exists>st' w'. init_state A hb w = Inr (st', w')
           \<and> trace w' = trace w @ concat (map (\<lambda>s. replicate (nat (n_initial hb s)) GetParams) (brackets hb)) @ [SaveState]
           \<and> map fst st' = brackets hb
           \<and> (\<forall>s\<in>set (brackets hb). \<exists>ps. map_of st' s = Some ps \<and> length ps = nat (n_initial hb s))
           \<and> best_link w' = best_link w \<and> config_file w' = config_file w
           \<and> state_file w' = Some (map (\<lambda>kv. (str_int (fst kv), snd kv)) st')
           \<and> distinct (map fst st') \<and> (0 \<le> s_max hb \<longrightarrow> st' \<noteq> [])
           \<and> load_state w' = Inr (Some st')"
    using i keys l d ne generate_effect[OF g] generate_state[OF g]
    by (intro exI[of _ st'] exI[of _ ?w']) (simp add: save_state_def)
qed

text \<open>
  Claim C6. When the best marker exists, \<open>run\<close> returns at once with the world
  untouched: no event is added to the trace (no sampling, no save, no fit) and no file
  changes. A run that has returned leaves a world in which a second run is such a no-op.
\<close>

theorem run_short_circuit:
  fixes A :: "('v, 'w) adapter"
  shows "(best_link w \<noteq> None \<longrightarrow> run A hb w = Inr w)
       \<and> (run A hb w = Inr w' \<longrightarrow> run A hb w' = Inr w')"
proof (intro conjI impI)
  assume "best_link w \<noteq> None"
  then show "run A hb w = Inr w" by (simp add: run_def)
next
  assume a: "run A hb w = Inr w'"
  have "best_link w' \<noteq> None"
  proof (cases "best_link w")
    case (Some t)
    with a show ?thesis by (auto simp: run_def)
  next
    case None
    with a obtain best w2 where "finalize best w2 = Inr w'"
      by (auto simp: run_def split: sum.splits)
    from finalize_Inr[OF this] show ?thesis by auto
  qed
  then show "run A hb w' = Inr w'" by (simp add: run_def)
qed

subsection \<open>Construction and names\<close>

lemma ln_eta: "ln eta = 1" by (simp add: eta_def)

lemma hb_init_Inr:
  assumes "hb_init A a0 cd0 w = Inr hb"
  shows "\<exists>m d t. model_path (fst (merge_config (config_file w) a0 cd0)) = Some m \<and> path_truthy A m
         \<and> data_path (fst (merge_config (config_file w) a0 cd0)) = Some d \<and> path_truthy A d
         \<and> train_epoch (fst (merge_config (config_file w) a0 cd0)) = Some t \<and> 0 < t
         \<and> hb = \<lparr>hb_path = hyperband_path (fst (merge_config (config_file w) a0 cd0)),
                 hb_model_path = m, hb_data_path = d,
                 config_dict = snd (merge_config (config_file w) a0 cd0),
                 max_iter = t, s_max = py_int (logeta A (of_int t)),
                 B = (py_int (logeta A (of_int t)) + 1) * t\<rparr>"
  using assms
  by (auto simp: hb_init_def Let_def split_beta split: option.splits if_splits)

text \<open>
  Claim C9. A persisted configuration replaces the supplied model path, data path and
  epoch count, and its hyperparameter defaults are stored over the supplied ones, the
  persisted value winning on a shared key; the scheduler is built from the merged
  values. If after the merge one of the three is unset, construction fails with an
  assertion error, and the program ends with that error and the world it started with.
\<close>

theorem construction_merge_and_preconditions:
  fixes A :: "('v, 'w) adapter"
  shows
  "(config_file w = Some c \<longrightarrow>
      fst (merge_config (config_file w) a cd)
        = a\<lparr>model_path := Some (cfg_model c), data_path := Some (cfg_data c),
             train_epoch := Some (cfg_train_epoch c)\<rparr>
      \<and> (distinct (map fst (cfg_vars c)) \<longrightarrow>
           map_of (snd (merge_config (config_file w) a cd)) = map_of cd ++ map_of (cfg_vars c)))
   \<and> (config_file w = None \<longrightarrow> merge_config (config_file w) a cd = (a, cd))
   \<and> (hb_init A a cd w = Inr hb \<longrightarrow>
        model_path (fst (merge_config (config_file w) a cd)) = Some (hb_model_path hb)
      \<and> data_path (fst (merge_config (config_file w) a cd)) = Some (hb_data_path hb)
      \<and> train_epoch (fst (merge_config (config_file w) a cd)) = Some (max_iter hb)
      \<and> config_dict hb = snd (merge_config (config_file w) a cd))
   \<and> (model_path (fst (merge_config (config_file w) a cd)) = None
        \<or> data_path (fst (merge_config (config_file w) a cd)) = None
        \<or> train_epoch (fst (merge_config (config_file w) a cd)) = None \<longrightarrow>
        (\<exists>msg. hb_init A a cd w = Inl (AssertionError msg) \<and> main A a cd w = Inl (AssertionError msg, w)))"
proof (intro conjI impI)
  assume c: "config_file w = Some c"
  show "fst (merge_config (config_file w) a cd)
        = a\<lparr>model_path := Some (cfg_model c), data_path := Some (cfg_data c),
             train_epoch := Some (cfg_train_epoch c)\<rparr>"
    using c by (simp add: merge_config_def)
  show "map_of (snd (merge_config (config_file w) a cd)) = map_of cd ++ map_of (cfg_vars c)"
    if "distinct (map fst (cfg_vars c))"
    using c that by (simp add: merge_config_def map_of_dict_update)
next
  assume "config_file w = None"
  then show "merge_config (config_file w) a cd = (a, cd)" by (simp add: merge_config_def)
next
  assume h: "hb_init A a cd w = Inr hb"
  from hb_init_Inr[OF h]
  show "model_path (fst (merge_config (config_file w) a cd)) = Some (hb_model_path hb)"
    "data_path (fst (merge_config (config_file w) a cd)) = Some (hb_data_path hb)"
    "train_epoch (fst (merge_config (config_file w) a cd)) = Some (max_iter hb)"
    "config_dict hb = snd (merge_config (config_file w) a cd)"
    by auto
next
  assume "model_path (fst (merge_config (config_file w) a cd)) = None
        \<or> data_path (fst (merge_config (config_file w) a cd)) = None
        \<or> train_epoch (fst (merge_config (config_file w) a cd)) = None"
  then have "\<exists>msg. hb_init A a cd w = Inl (AssertionError msg)"
    by (auto simp: hb_init_def Let_def split_beta split: option.splits)
  then show "\<exists>msg. hb_init A a cd w = Inl (AssertionError msg) \<and> main A a cd w = Inl (AssertionError msg, w)"
    by (auto simp: main_def)
qed

text \<open>
  Claim C10. In the configuration built from a sampled parameter set, every key of the
  fixed defaults has the default's value, also where the sample had the key; keys of the
  sample alone keep the sampled value. The name is made from the sampled parameters
  only: it is the same whatever the defaults are.
\<close>

theorem materialize_defaults_overwrite:
  "(distinct (map fst defaults) \<longrightarrow>
      map_of (params (materialize str dir defaults sampled)) = map_of sampled ++ map_of defaults)
   \<and> (distinct (map fst defaults) \<and> (k, v) \<in> set defaults \<longrightarrow>
        map_of (params (materialize str dir defaults sampled)) k = Some v)
   \<and> name (materialize str dir defaults sampled) = path_join dir (get_name str sampled)
   \<and> name (materialize str dir defaults sampled) = name (materialize str dir [] sampled)"
  by (simp add: materialize_def Let_def map_of_dict_update)

text \<open>
  Claim C7. Two hyperparameter mappings with the same key-value pairs, in whatever
  insertion order, have the same canonical name.
\<close>

theorem get_name_order_invariant:
  assumes "distinct (map fst ps)" "distinct (map fst qs)" "set ps = set qs"
  shows "get_name str ps = get_name str qs"
proof -
  have "distinct ps" "distinct qs" using assms(1,2) by (simp_all add: distinct_map)
  with assms(3) have "mset ps = mset qs" by (simp add: set_eq_iff_mset_eq_distinct)
  then have "mset (map (fmt_item str) ps) = mset (map (fmt_item str) qs)" by simp
  then have "sort (map (fmt_item str) ps) = sort (map (fmt_item str) qs)"
    by (metis properties_for_sort sorted_sort mset_sort)
  then show ?thesis by (simp add: get_name_def)
qed

lemma fmt_item_less:
  assumes "k1 < k2" and "\<forall>c\<in>set k2. CHR ''='' < c"
  shows "k1 @ CHR ''='' # v1 < k2 @ CHR ''='' # v2"
  using assms
proof (induction k1 arbitrary: k2)
  case Nil
  then obtain c cs where "k2 = c # cs" by (cases k2) auto
  with Nil show ?case by simp
next
  case (Cons a as)
  then obtain b bs where k2: "k2 = b # bs" by (cases k2) auto
  with Cons.prems have "a < b \<or> a = b \<and> as < bs" by simp
  then show ?case
  proof
    assume "a < b" then show ?thesis by (simp add: k2)
  next
    assume "a = b \<and> as < bs"
    moreover have "\<forall>c\<in>set bs. CHR ''='' < c" using Cons.prems k2 by simp
    ultimately show ?thesis using Cons.IH [of bs] by (simp add: k2)
  qed
qed

lemma sorted_fmt_of_sorted_keys:
  assumes "sorted (map fst qs)" "distinct (map fst qs)" "\<forall>k\<in>set (map fst qs). \<forall>c\<in>set k. CHR ''='' < c"
  shows "sorted (map (fmt_item str) qs)"
  using assms
proof (induction qs)
  case Nil
  then show ?case by simp
next
  case (Cons q qs)
  have "fmt_item str q \<le> fmt_item str p" if "p \<in> set qs" for p
  proof -
    have "fst q \<le> fst p" "fst q \<noteq> fst p" using Cons.prems that by auto
    then have "fst q < fst p" by simp
    moreover have "\<forall>c\<in>set (fst p). CHR ''='' < c" using Cons.prems that by simp
    ultimately have "fst q @ CHR ''='' # str (snd q) < fst p @ CHR ''='' # str (snd p)"
      by (rule fmt_item_less)
    then show ?thesis by (simp add: fmt_item_def)
  qed
  with Cons show ?case by auto
qed

lemma get_name_by_keys:
  assumes "distinct (map fst ps)" "\<forall>k\<in>set (map fst ps). \<forall>c\<in>set k. CHR ''='' < c"
  shows "get_name str ps = name_by_sorted_keys str ps"
proof -
  let ?qs = "sort_key fst ps"
  have "sorted (map fst ?qs)" by simp
  moreover have "mset (map fst ?qs) = mset (map fst ps)" by simp
  then have "distinct (map fst ?qs)" using assms(1) by (metis mset_eq_imp_distinct_iff)
  moreover have "\<forall>k\<in>set (map fst ?qs). \<forall>c\<in>set k. CHR ''='' < c" using assms(2) by simp
  ultimately have "sorted (map (fmt_item str) ?qs)" by (rule sorted_fmt_of_sorted_keys)
  moreover have "mset (map (fmt_item str) ?qs) = mset (map (fmt_item str) ps)" by simp
  ultimately have "sort (map (fmt_item str) ps) = map (fmt_item str) ?qs"
    by (rule properties_for_sort[rotated])
  then show ?thesis by (simp add: get_name_def name_by_sorted_keys_def)
qed

section \<open>Examples on the small collaborator\<close>

lemma floor_3_div_eta: "\<lfloor>3 / eta\<rfloor> = 1"
proof -
  have "1 \<le> 3 / eta" using eta_gt_2 eta_le_3 by (simp add: field_simps)
  moreover have "3 / eta < 2" using eta_gt_2 by (simp add: field_simps)
  ultimately show ?thesis by (simp add: floor_eq_iff)
qed

lemma floor_1_div_eta: "\<lfloor>1 / eta\<rfloor> = 0"
proof -
  have "0 \<le> 1 / eta" using eta_gt_2 by simp
  moreover have "1 / eta < 1" using eta_gt_2 by (simp add: field_simps)
  ultimately show ?thesis by (simp add: floor_eq_iff)
qed

lemma ceiling_eta: "\<lceil>eta\<rceil> = 3"
  using eta_gt_2 eta_le_3 by (simp add: ceiling_eq_iff)

lemma py_round_of_int: "py_round (of_int k) = k"
  by (simp add: py_round_def)

lemma py_round_1: "py_round 1 = 1"
  using py_round_of_int[of 1] by simp

lemma floor_ln_3: "\<lfloor>ln (3::real)\<rfloor> = 1"
proof -
  have "exp 1 \<le> (3::real)" by (rule exp_le)
  then have a: "1 \<le> ln (3::real)" by (simp add: ln_ge_iff)
  have "2 * 2 < eta * eta" using eta_gt_2 by (intro mult_strict_mono) simp_all
  then have "(3::real) < eta * eta" by simp
  also have "eta * eta = exp 2" by (simp add: eta_def exp_add[symmetric])
  finally have "ln (3::real) < ln (exp 2)" by (subst ln_less_cancel_iff) simp_all
  then have "ln (3::real) < 2" by simp
  with a show ?thesis by (simp add: floor_eq_iff)
qed

lemma demo_simps:
  "str_value demo = str_int"
  "path_truthy demo p = (p \<noteq> [])"
  "get_params demo cd x = ([(''lr'', int (fst x))], (Suc (fst x), snd x))"
  "save demo c m d x = x"
  "stopped_early demo c x = (name c \<in> set (snd x))"
  "fit demo c n x = (if map_of (params c) ''lr'' = Some 2 then (fst x, name c # snd x) else x)"
  "load_best_reward demo c x = (map_option of_int (map_of (params c) ''lr''), 1)"
  "math_log demo = ln"
  by (simp_all add: demo_def)

lemma name_lr0: "get_name str_int [(''lr'', 0)] = ''lr=0''"
  by code_simp

lemma name_lr1: "get_name str_int [(''lr'', 1)] = ''lr=1''"
  by code_simp

lemma name_lr2: "get_name str_int [(''lr'', 2)] = ''lr=2''"
  by code_simp

lemma str_int_0: "str_int 0 = ''0''"
  by code_simp

lemma path_names:
  "path_join ''hb'' ''lr=0'' = ''hb/lr=0''"
  "path_join ''hb'' ''lr=1'' = ''hb/lr=1''"
  "path_join ''hb'' ''lr=2'' = ''hb/lr=2''"
  by (simp_all add: path_join_def)

lemma demo_hb_round0: "py_round (r_initial demo_hb 0 * eta powi 0) = 1"
  by (simp add: r_initial_def demo_hb_def py_round_1)


lemma py_int_logeta_3: "py_int (logeta demo 3) = 1"
  using floor_ln_3 by (simp add: py_int_def logeta_def ln_eta demo_simps)

text \<open>
  With the real logarithm, a maximum epoch count of 3 gives \<open>demo_hb3\<close>, whose bracket
  1 starts with three configurations trained for one iteration in round 0.
\<close>

lemma hb_init_demo_3:
  "hb_init demo (demo_args\<lparr>train_epoch := Some 3\<rparr>) [] demo_world = Inr demo_hb3"
  by (simp add: hb_init_def merge_config_def demo_world_def demo_args_def demo_simps demo_hb3_def
      py_int_logeta_3)

lemma n_initial_demo_3: "n_initial demo_hb3 1 = 3" "n_initial demo_hb3 0 = 2"
  by (simp_all add: n_initial_def demo_hb3_def ceiling_eta)

lemma demo_config_eq:
  "demo_config 0 = \<lparr>name = ''hb/lr=0'', params = [(''lr'', 0)]\<rparr>"
  "demo_config 1 = \<lparr>name = ''hb/lr=1'', params = [(''lr'', 1)]\<rparr>"
  "demo_config 2 = \<lparr>name = ''hb/lr=2'', params = [(''lr'', 2)]\<rparr>"
  by (simp_all add: demo_config_def materialize_def dict_update_def name_lr0 name_lr1 name_lr2 path_names)

lemma eta_nonneg: "0 \<le> eta" using eta_pos by simp

lemma demo_hb_round0': "py_round (r_initial demo_hb 0) = 1"
  using demo_hb_round0 by simp

lemma py_round_3_div_eta: "py_round (3 / eta) = 1"
proof -
  have "3 / eta - 1 < 1 / 2" using eta_gt_2 by (simp add: field_simps)
  then show ?thesis by (simp add: py_round_def floor_3_div_eta)
qed

lemma demo_hb3_round0: "py_round (r_initial demo_hb3 1 * eta powi 0) = 1"
  using py_round_3_div_eta by (simp add: r_initial_def demo_hb3_def power_int_minus divide_inverse)

lemma demo_hb3_round0': "py_round (r_initial demo_hb3 1) = 1"
  using demo_hb3_round0 by simp

lemma demo_second_simps:
  "stopped_early demo_second c x = (name c \<in> set (snd x))"
  "fit demo_second c n x = (Suc (fst x), if 0 < fst x then name c # snd x else snd x)"
  "load_best_reward demo_second c x = (map_option of_int (map_of (params c) ''lr''), 1)"
  by (simp_all add: demo_second_def demo_def)

text \<open>
  Claim C3 as stated fails when two entries of \<open>T\<close> have the same name. The sampler
  of the second collaborator returns the same parameters three times, so bracket 1 of
  \<open>demo_hb3\<close> starts with three configurations of one directory. The first fit is
  recorded; the second writes the early-stop flag and is not recorded; the third entry
  is skipped. The survivor is the configuration of the first fit, whose flag exists.
\<close>

theorem flagged_duplicate_survives:
  "run_round demo_second demo_hb3 1 3 0
       ([demo_config 1, demo_config 1, demo_config 1], initial_best, demo_world)
     = ([demo_config 1],
        \<lparr>best_reward = Some 1, best_config = Some (demo_config 1), best_epoch = Some 1\<rparr>,
        demo_world\<lparr>ext := (2, [''hb/lr=1'']), trace := [Fit ''hb/lr=1'' 1, Fit ''hb/lr=1'' 1]\<rparr>)
   \<and> stopped_early demo_second (demo_config 1) (2, [''hb/lr=1''])"
  by (simp add: run_round_def select_survivors_def slice_to_def py_int_def Let_def demo_second_simps
      demo_world_def demo_hb3_round0 demo_hb3_round0' eta_nonneg floor_3_div_eta sorted_reverse_def
      demo_config_eq max_by_reward_def initial_best_def)

lemma demo_config_names:
  "distinct (map name ([demo_config 0, demo_config 1] @ demo_config 2 # []))"
  by (simp add: demo_config_eq)

lemma demo_pre:
  "train_configs demo 1 [demo_config 0, demo_config 1] (initial_best, [], demo_world)
     = (\<lparr>best_reward = Some 1, best_config = Some (demo_config 1), best_epoch = Some (Suc 0)\<rparr>,
        [\<lparr>reward = Some 0, config = demo_config 0, epoch = Suc 0\<rparr>,
         \<lparr>reward = Some 1, config = demo_config 1, epoch = Suc 0\<rparr>],
        demo_world\<lparr>trace := [Fit ''hb/lr=0'' 1, Fit ''hb/lr=1'' 1]\<rparr>)"
  by (simp add: Let_def demo_simps demo_world_def demo_config_eq max_by_reward_def initial_best_def)

lemma demo_round:
  "run_round demo demo_hb3 1 3 0
       ([demo_config 0, demo_config 1] @ demo_config 2 # [], initial_best, demo_world)
     = ([demo_config 1],
        \<lparr>best_reward = Some 2, best_config = Some (demo_config 2), best_epoch = Some (Suc 0)\<rparr>,
        demo_world\<lparr>ext := (0, [''hb/lr=2'']),
                   trace := [Fit ''hb/lr=0'' 1, Fit ''hb/lr=1'' 1, Fit ''hb/lr=2'' 1]\<rparr>)"
  by (simp add: run_round_def select_survivors_def slice_to_def py_int_def Let_def demo_simps
      demo_world_def demo_hb3_round0 demo_hb3_round0' eta_nonneg floor_3_div_eta sorted_reverse_def
      demo_config_eq max_by_reward_def initial_best_def)

lemma demo_pre_flagged:
  "train_configs demo 1 [demo_config 0, demo_config 1]
       (initial_best, [], demo_world\<lparr>ext := (0, [''hb/lr=2''])\<rparr>)
     = (\<lparr>best_reward = Some 1, best_config = Some (demo_config 1), best_epoch = Some (Suc 0)\<rparr>,
        [\<lparr>reward = Some 0, config = demo_config 0, epoch = Suc 0\<rparr>,
         \<lparr>reward = Some 1, config = demo_config 1, epoch = Suc 0\<rparr>],
        demo_world\<lparr>ext := (0, [''hb/lr=2'']), trace := [Fit ''hb/lr=0'' 1, Fit ''hb/lr=1'' 1]\<rparr>)"
  by (simp add: Let_def demo_simps demo_world_def demo_config_eq max_by_reward_def initial_best_def)

lemma demo_round_flagged:
  "run_round demo demo_hb3 1 3 0
       ([demo_config 0, demo_config 1] @ demo_config 2 # [], initial_best,
        demo_world\<lparr>ext := (0, [''hb/lr=2''])\<rparr>)
     = ([demo_config 1],
        \<lparr>best_reward = Some 1, best_config = Some (demo_config 1), best_epoch = Some (Suc 0)\<rparr>,
        demo_world\<lparr>ext := (0, [''hb/lr=2'']), trace := [Fit ''hb/lr=0'' 1, Fit ''hb/lr=1'' 1]\<rparr>)"
  by (simp add: run_round_def select_survivors_def slice_to_def py_int_def Let_def demo_simps
      demo_world_def demo_hb3_round0 demo_hb3_round0' eta_nonneg floor_3_div_eta sorted_reverse_def
      demo_config_eq max_by_reward_def initial_best_def)

text \<open>
  Example for claim C3 as amended: round 0 of bracket 1 of \<open>demo_hb3\<close> on the three
  configurations the sampler draws. The configuration with learning rate 2 has the best
  reward and stops early during its fit: the running best is that configuration and the
  survivor is the one with learning rate 1. When its flag exists before the round, it is
  not fitted and the running best is the configuration with learning rate 1.
\<close>

theorem early_stop_exclusion_witness:
  "run_round demo demo_hb3 1 3 0
       ([demo_config 0, demo_config 1, demo_config 2], initial_best, demo_world)
     = ([demo_config 1],
        \<lparr>best_reward = Some 2, best_config = Some (demo_config 2), best_epoch = Some 1\<rparr>,
        demo_world\<lparr>ext := (0, [''hb/lr=2'']),
                   trace := [Fit ''hb/lr=0'' 1, Fit ''hb/lr=1'' 1, Fit ''hb/lr=2'' 1]\<rparr>)
   \<and> \<not> stopped_early demo (demo_config 2) (0, [])
   \<and> stopped_early demo (demo_config 2) (fit demo (demo_config 2) 1 (0, []))
   \<and> demo_config 2 \<notin> set [demo_config 1]
   \<and> \<not> stopped_early demo (demo_config 1) (0, [''hb/lr=2''])
   \<and> stopped_early demo (demo_config 2) (0, [''hb/lr=2''])
   \<and> run_round demo demo_hb3 1 3 0
       ([demo_config 0, demo_config 1, demo_config 2], initial_best,
        demo_world\<lparr>ext := (0, [''hb/lr=2''])\<rparr>)
     = ([demo_config 1],
        \<lparr>best_reward = Some 1, best_config = Some (demo_config 1), best_epoch = Some 1\<rparr>,
        demo_world\<lparr>ext := (0, [''hb/lr=2'']), trace := [Fit ''hb/lr=0'' 1, Fit ''hb/lr=1'' 1]\<rparr>)"
  using early_stop_exclusion[OF demo_config_names demo_hb3_round0[symmetric] demo_pre demo_round]
    early_stop_exclusion[OF demo_config_names demo_hb3_round0[symmetric] demo_pre_flagged
      demo_round_flagged]
    demo_round demo_round_flagged
  by (simp add: demo_simps demo_world_def demo_config_eq)

lemma brackets_demo_hb: "brackets demo_hb = [0]"
  by (simp add: brackets_def demo_hb_def upto_rec1)

lemma n_initial_demo_hb: "n_initial demo_hb 0 = 1"
  by (simp add: n_initial_def demo_hb_def)

lemma config_dict_demo_hb: "config_dict demo_hb = []" "hb_path demo_hb = ''hb''"
  "hb_model_path demo_hb = ''m''" "hb_data_path demo_hb = ''d''"
  by (simp_all add: demo_hb_def)

lemma sample_one:
  "sample_params demo [] (Suc 0) w
     = ([[(''lr'', int (fst (ext w)))]], w\<lparr>ext := (Suc (fst (ext w)), snd (ext w)), trace := trace w @ [GetParams]\<rparr>)"
  by (simp add: demo_simps)

lemma generate_and_save_demo:
  "state_file w = None \<or> state_file w = Some [] \<Longrightarrow> ext w = (0, []) \<Longrightarrow>
   generate_and_save demo demo_hb w
     = ([(0, [[(''lr'', 0)]])],
        w\<lparr>ext := (Suc 0, []), state_file := Some [(''0'', [[(''lr'', 0)]])],
          trace := trace w @ [GetParams, SaveState]\<rparr>)"
  by (simp add: generate_and_save_def brackets_demo_hb n_initial_demo_hb config_dict_demo_hb
      sample_one save_state_def str_int_0 demo_simps)

lemma init_state_demo:
  "init_state demo demo_hb demo_world
     = Inr ([(0, [[(''lr'', 0)]])],
        demo_world\<lparr>ext := (Suc 0, []), state_file := Some [(''0'', [[(''lr'', 0)]])],
          trace := [GetParams, SaveState]\<rparr>)"
  using generate_and_save_demo[of demo_world]
  by (simp add: init_state_def load_state_def demo_world_def)

lemma materialize_demo: "materialize str_int ''hb'' [] [(''lr'', 0)] = demo_config 0"
  by (simp add: demo_config_def)

lemma run_bracket_demo:
  "ext w = (Suc 0, []) \<Longrightarrow>
   run_bracket demo demo_hb [(0, [[(''lr'', 0)]])] 0 (initial_best, w)
     = Inr (\<lparr>best_reward = Some 0, best_config = Some (demo_config 0), best_epoch = Some (Suc 0)\<rparr>,
            w\<lparr>trace := trace w @ [SaveConfig ''hb/lr=0'', Fit ''hb/lr=0'' 1]\<rparr>)"
  by (simp add: run_bracket_def dict_get_def config_dict_demo_hb demo_simps materialize_demo
      run_round_def select_survivors_def slice_to_def py_int_def Let_def
      demo_hb_round0 demo_hb_round0' eta_nonneg floor_1_div_eta sorted_reverse_def demo_config_eq
      max_by_reward_def initial_best_def)

lemma run_demo:
  "run demo demo_hb demo_world
      = Inr (demo_world\<lparr>ext := (Suc 0, []), state_file := Some [(''0'', [[(''lr'', 0)]])],
               best_link := Some ''hb/lr=0'',
               trace := [GetParams, SaveState, SaveConfig ''hb/lr=0'', Fit ''hb/lr=0'' 1,
                         LinkBest ''hb/lr=0'']\<rparr>)"
proof -
  let ?w1 = "demo_world\<lparr>ext := (Suc 0, []), state_file := Some [(''0'', [[(''lr'', 0)]])],
          trace := [GetParams, SaveState]\<rparr>"
  have b: "best_link demo_world = None" by (simp add: demo_world_def)
  have s: "sweep demo demo_hb [(0, [[(''lr'', 0)]])] (brackets demo_hb) (initial_best, ?w1)
      = Inr (\<lparr>best_reward = Some 0, best_config = Some (demo_config 0), best_epoch = Some (Suc 0)\<rparr>,
            ?w1\<lparr>trace := trace ?w1 @ [SaveConfig ''hb/lr=0'', Fit ''hb/lr=0'' 1]\<rparr>)"
    using run_bracket_demo[of ?w1] by (simp add: brackets_demo_hb)
  show ?thesis
    unfolding run_def
    by (simp add: b init_state_demo s finalize_def link_best_def demo_config_eq)
qed

lemma int_of_str_0: "int_of_str ''0'' = Inr 0"
  by code_simp

text \<open>
  Claim C4 at a run that is resumed: there is no best marker, the persisted state holds
  one bracket with one configuration, and the early-stop flag of that configuration
  exists. The configuration is saved and skipped, no fit is made, and the running best is
  still the first dictionary, which has no \<open>config\<close> key, when the sweep ends. Line 103
  raises \<open>KeyError\<close>: nothing is linked and the best marker is not written.
\<close>

theorem run_all_flagged_raises:
  "run demo demo_hb
     (demo_world\<lparr>ext := (1, [''hb/lr=2'']), state_file := Some [(''0'', [[(''lr'', 2)]])]\<rparr>)
     = Inl (KeyError ''config'',
            demo_world\<lparr>ext := (1, [''hb/lr=2'']), state_file := Some [(''0'', [[(''lr'', 2)]])],
                       trace := [SaveConfig ''hb/lr=2'']\<rparr>)"
proof -
  let ?w1 = "demo_world\<lparr>ext := (Suc 0, [''hb/lr=2'']), state_file := Some [(''0'', [[(''lr'', 2)]])]\<rparr>"
  have b: "best_link ?w1 = None" by (simp add: demo_world_def)
  have i: "init_state demo demo_hb ?w1 = Inr ([(0, [[(''lr'', 2)]])], ?w1)"
    by (simp add: init_state_def load_state_def int_of_str_0)
  have m: "materialize str_int ''hb'' [] [(''lr'', 2)] = demo_config 2" by (simp add: demo_config_def)
  have s: "sweep demo demo_hb [(0, [[(''lr'', 2)]])] (brackets demo_hb) (initial_best, ?w1)
      = Inr (initial_best, ?w1\<lparr>trace := trace ?w1 @ [SaveConfig ''hb/lr=2'']\<rparr>)"
    by (simp add: brackets_demo_hb run_bracket_def dict_get_def config_dict_demo_hb demo_simps m
      run_round_def select_survivors_def slice_to_def py_int_def Let_def
      demo_hb_round0 demo_hb_round0' eta_nonneg floor_1_div_eta sorted_reverse_def demo_config_eq)
  show ?thesis
    unfolding run_def
    by (simp add: b i s finalize_initial_best) (simp add: demo_world_def)
qed

text \<open>
  A state file that holds the empty object is none that the scheduler writes; \<open>if state:\<close>
  is false for it, so the run samples and saves.
\<close>

lemma empty_state_is_regenerated:
  "init_state demo demo_hb (demo_world\<lparr>state_file := Some []\<rparr>)
     = Inr ([(0, [[(''lr'', 0)]])],
            demo_world\<lparr>ext := (1, []), state_file := Some [(''0'', [[(''lr'', 0)]])],
                       trace := [GetParams, SaveState]\<rparr>)"
  using generate_and_save_demo[of "demo_world\<lparr>state_file := Some []\<rparr>"]
  by (simp add: init_state_def load_state_def demo_world_def)

lemma run_demo_resumed:
  "run demo demo_hb (demo_world\<lparr>ext := (Suc 0, []), state_file := Some [(''0'', [[(''lr'', 0)]])]\<rparr>)
      = Inr (demo_world\<lparr>ext := (Suc 0, []), state_file := Some [(''0'', [[(''lr'', 0)]])],
               best_link := Some ''hb/lr=0'',
               trace := [SaveConfig ''hb/lr=0'', Fit ''hb/lr=0'' 1, LinkBest ''hb/lr=0'']\<rparr>)"
proof -
  let ?w1 = "demo_world\<lparr>ext := (Suc 0, []), state_file := Some [(''0'', [[(''lr'', 0)]])]\<rparr>"
  have b: "best_link ?w1 = None" by (simp add: demo_world_def)
  have i: "init_state demo demo_hb ?w1 = Inr ([(0, [[(''lr'', 0)]])], ?w1)"
    by (simp add: init_state_def load_state_def int_of_str_0)
  have s: "sweep demo demo_hb [(0, [[(''lr'', 0)]])] (brackets demo_hb) (initial_best, ?w1)
      = Inr (\<lparr>best_reward = Some 0, best_config = Some (demo_config 0), best_epoch = Some (Suc 0)\<rparr>,
            ?w1\<lparr>trace := trace ?w1 @ [SaveConfig ''hb/lr=0'', Fit ''hb/lr=0'' 1]\<rparr>)"
    using run_bracket_demo[of ?w1] by (simp add: brackets_demo_hb)
  show ?thesis
    unfolding run_def
    by (simp add: b i s finalize_def link_best_def demo_config_eq) (simp add: demo_world_def)
qed

text \<open>
  Example for claim C5: a persisted bracket is reused untouched and the run that follows
  saves the configuration, fits it and links it; without a persisted state one
  parameter set is sampled and saved.
\<close>

theorem persisted_state_is_reused_witness:
  "init_state demo demo_hb (demo_world\<lparr>ext := (1, []), state_file := Some [(''0'', [[(''lr'', 0)]])]\<rparr>)
     = Inr ([(0, [[(''lr'', 0)]])],
            demo_world\<lparr>ext := (1, []), state_file := Some [(''0'', [[(''lr'', 0)]])]\<rparr>)
   \<and> final_world (run demo demo_hb
         (demo_world\<lparr>ext := (1, []), state_file := Some [(''0'', [[(''lr'', 0)]])]\<rparr>))
     = demo_world\<lparr>ext := (1, []), state_file := Some [(''0'', [[(''lr'', 0)]])],
               best_link := Some ''hb/lr=0'',
               trace := [SaveConfig ''hb/lr=0'', Fit ''hb/lr=0'' 1, LinkBest ''hb/lr=0'']\<rparr>
   \<and> init_state demo demo_hb demo_world
     = Inr ([(0, [[(''lr'', 0)]])],
            demo_world\<lparr>ext := (1, []), state_file := Some [(''0'', [[(''lr'', 0)]])],
                       trace := [GetParams, SaveState]\<rparr>)"
  using persisted_state_is_reused[where w = "demo_world\<lparr>ext := (1, []), state_file := Some [(''0'', [[(''lr'', 0)]])]\<rparr>"
      and st = "[(0, [[(''lr'', 0)]])]" and A = demo and hb = demo_hb]
    persisted_state_is_reused[where w = demo_world and st = "[]" and A = demo and hb = demo_hb]
    init_state_demo run_demo_resumed
  by (simp add: str_int_0 final_world_def)

text \<open>
  Example for claim C6: with the marker present nothing happens, also in the world the
  whole run above ended in.
\<close>

theorem run_short_circuit_witness:
  "run demo demo_hb (demo_world\<lparr>best_link := Some ''hb/lr=0''\<rparr>)
     = Inr (demo_world\<lparr>best_link := Some ''hb/lr=0''\<rparr>)
   \<and> run demo demo_hb
       (demo_world\<lparr>ext := (1, []), state_file := Some [(''0'', [[(''lr'', 0)]])],
               best_link := Some ''hb/lr=0'',
               trace := [GetParams, SaveState, SaveConfig ''hb/lr=0'', Fit ''hb/lr=0'' 1,
                         LinkBest ''hb/lr=0'']\<rparr>)
     = Inr (demo_world\<lparr>ext := (1, []), state_file := Some [(''0'', [[(''lr'', 0)]])],
               best_link := Some ''hb/lr=0'',
               trace := [GetParams, SaveState, SaveConfig ''hb/lr=0'', Fit ''hb/lr=0'' 1,
                         LinkBest ''hb/lr=0'']\<rparr>)"
  using run_short_circuit[of "demo_world\<lparr>best_link := Some ''hb/lr=0''\<rparr>" demo demo_hb]
    run_short_circuit[of demo_world demo demo_hb] run_demo
  by simp

lemma name_a1_b2: "get_name str_int [(''a'', 1), (''b'', 2)] = ''a=1,b=2''"
  by code_simp

text \<open>Example for claim C7: the two insertion orders of the specification's example.\<close>

theorem get_name_order_invariant_witness:
  "get_name str_int [(''a'', 1), (''b'', 2)] = ''a=1,b=2''
   \<and> get_name str_int [(''b'', 2), (''a'', 1)] = ''a=1,b=2''"
proof -
  have "get_name str_int [(''b'', 2), (''a'', 1)] = get_name str_int [(''a'', 1), (''b'', 2)]"
    by (rule get_name_order_invariant) auto
  then show ?thesis by (simp add: name_a1_b2)
qed

text \<open>
  Claim C8 as stated fails where one key is a prefix of another and the next character
  sorts before \<open>=\<close>: the entries are sorted as rendered strings, so \<open>a1=2\<close> precedes
  \<open>a=1\<close>, while the keys in ascending order are \<open>a\<close>, \<open>a1\<close>.
\<close>

theorem get_name_not_key_sorted:
  "get_name str_int [(''a'', 1), (''a1'', 2)] = ''a1=2,a=1''
   \<and> name_by_sorted_keys str_int [(''a'', 1), (''a1'', 2)] = ''a=1,a1=2''"
  by code_simp

text \<open>
  Claim C8, as amended. The canonical name is the \<open>key=value\<close> renderings of all
  entries, joined by commas, in ascending order of the rendered strings. Where every
  character of every key sorts after \<open>=\<close> (letters and the underscore do), that is the
  ascending order of the keys.
\<close>

theorem get_name_sorted_entries:
  "(\<exists>qs. mset qs = mset ps \<and> sorted (map (fmt_item str) qs)
         \<and> get_name str ps = py_join '','' (map (fmt_item str) qs))
   \<and> (distinct (map fst ps) \<and> (\<forall>k\<in>set (map fst ps). \<forall>c\<in>set k. CHR ''='' < c) \<longrightarrow>
        get_name str ps = name_by_sorted_keys str ps)"
proof (intro conjI impI)
  let ?qs = "sort_key (fmt_item str) ps"
  have "sorted (map (fmt_item str) ?qs)" by simp
  moreover have "mset (map (fmt_item str) ?qs) = mset (map (fmt_item str) ps)" by simp
  ultimately have "sort (map (fmt_item str) ps) = map (fmt_item str) ?qs"
    by (rule properties_for_sort[rotated])
  then have "get_name str ps = py_join '','' (map (fmt_item str) ?qs)" by (simp add: get_name_def)
  then show "\<exists>qs. mset qs = mset ps \<and> sorted (map (fmt_item str) qs)
         \<and> get_name str ps = py_join '','' (map (fmt_item str) qs)"
    by (intro exI[of _ ?qs]) simp
next
  assume "distinct (map fst ps) \<and> (\<forall>k\<in>set (map fst ps). \<forall>c\<in>set k. CHR ''='' < c)"
  then show "get_name str ps = name_by_sorted_keys str ps" by (intro get_name_by_keys) simp_all
qed

lemma keys_after_equals:
  "distinct (map fst [(''b'', 2::int), (''a'', 1)])
   \<and> (\<forall>k\<in>set (map fst [(''b'', 2::int), (''a'', 1)]). \<forall>c\<in>set k. CHR ''='' < c)"
  by code_simp

lemma name_keys_b2_a1: "name_by_sorted_keys str_int [(''b'', 2), (''a'', 1)] = ''a=1,b=2''"
  by code_simp

text \<open>Example for claim C8 as amended: keys made of letters.\<close>

theorem get_name_sorted_entries_witness:
  "get_name str_int [(''b'', 2), (''a'', 1)] = name_by_sorted_keys str_int [(''b'', 2), (''a'', 1)]
   \<and> name_by_sorted_keys str_int [(''b'', 2), (''a'', 1)] = ''a=1,b=2''"
  using get_name_sorted_entries[of "[(''b'', 2), (''a'', 1)]" str_int] keys_after_equals name_keys_b2_a1
  by blast

text \<open>
  Example for claim C9: a persisted configuration overrides the arguments and its
  default for \<open>lr\<close> wins; and without a model path the program ends with the assertion
  error in the world it started with.
\<close>

theorem construction_merge_and_preconditions_witness:
  \<open>hb_init demo demo_args [(''lr'', 1), (''k'', 2)]
      (demo_world\<lparr>config_file := Some \<lparr>cfg_model = ''pm'', cfg_data = ''pd'', cfg_train_epoch = 1,
                                        cfg_vars = [(''lr'', 5)]\<rparr>\<rparr>)
     = Inr \<lparr>hb_path = ''hb'', hb_model_path = ''pm'', hb_data_path = ''pd'',
            config_dict = [(''lr'', 5), (''k'', 2)], max_iter = 1, s_max = 0, B = 1\<rparr>
   \<and> main demo (demo_args\<lparr>model_path := None\<rparr>) [] demo_world
     = Inl (AssertionError ''Must provide "model" argument'', demo_world)\<close>
  using construction_merge_and_preconditions[of
      "demo_world\<lparr>config_file := Some \<lparr>cfg_model = ''pm'', cfg_data = ''pd'', cfg_train_epoch = 1,
                                        cfg_vars = [(''lr'', 5)]\<rparr>\<rparr>"
      "\<lparr>cfg_model = ''pm'', cfg_data = ''pd'', cfg_train_epoch = 1, cfg_vars = [(''lr'', 5)]\<rparr>"
      demo_args "[(''lr'', 1), (''k'', 2)]" demo
      "\<lparr>hb_path = ''hb'', hb_model_path = ''pm'', hb_data_path = ''pd'',
            config_dict = [(''lr'', 5), (''k'', 2)], max_iter = 1, s_max = 0, B = 1\<rparr>"]
    construction_merge_and_preconditions[of demo_world
      "\<lparr>cfg_model = ''pm'', cfg_data = ''pd'', cfg_train_epoch = 1, cfg_vars = [(''lr'', 5)]\<rparr>"
      "demo_args\<lparr>model_path := None\<rparr>" "[]" demo demo_hb]
  by (simp add: main_def hb_init_def merge_config_def demo_world_def demo_args_def demo_simps
      dict_update_def py_int_def logeta_def)

text \<open>
  Example for claim C10: the default 5 replaces the sampled learning rate 1 in the
  configuration, and the name still says \<open>lr=1\<close>.
\<close>

theorem materialize_defaults_overwrite_witness:
  "materialize str_int ''hb'' [(''lr'', 5)] [(''lr'', 1)] = \<lparr>name = ''hb/lr=1'', params = [(''lr'', 5)]\<rparr>
   \<and> materialize str_int ''hb'' [] [(''lr'', 1)] = \<lparr>name = ''hb/lr=1'', params = [(''lr'', 1)]\<rparr>"
  using materialize_defaults_overwrite[of "[(''lr'', 5)]" str_int "''hb''" "[(''lr'', 1)]" "''lr''" 5]
  by (simp add: materialize_def dict_update_def name_lr1 path_names)

end
